theory Spec2Isabelle
  imports Main
begin

section \<open>JavaScript values\<close>

text \<open>
  The registry of \<^verbatim>\<open>serviceLocator.ts\<close> is a \<^verbatim>\<open>Map<ServiceToken<any>, any>\<close>: it
  stores any JavaScript value. Objects are references; the reference carries the class of
  the object it points to and its address among the objects of that class. Numbers are
  modelled by the integers plus \<^verbatim>\<open>NaN\<close>, which is all that truthiness and the decimal
  rendering of a process id or a context id need.
\<close>

datatype jsval =
    JUndefined
  | JNull
  | JBool bool
  | JNum int
  | JNaN
  | JStr string
  | JService nat
  | JHandle nat
  | JObject nat

text \<open>The truthiness test behind \<^verbatim>\<open>if(!x)\<close>.\<close>

fun truthy :: "jsval \<Rightarrow> bool" where
  "truthy JUndefined = False"
| "truthy JNull = False"
| "truthy (JBool b) = b"
| "truthy (JNum n) = (n \<noteq> 0)"
| "truthy JNaN = False"
| "truthy (JStr s) = (s \<noteq> [])"
| "truthy (JService a) = True"
| "truthy (JHandle a) = True"
| "truthy (JObject a) = True"

text \<open>
  What a \<^verbatim>\<open>throw\<close> carries: \<^verbatim>\<open>new Error(message)\<close>, or the \<^verbatim>\<open>TypeError\<close> the runtime
  raises when a property of \<^verbatim>\<open>null\<close> or \<^verbatim>\<open>undefined\<close> is read or a missing method is
  called.
\<close>

datatype js_error = Error string | TypeError

section \<open>The service locator (\<^verbatim>\<open>src/common/serviceLocator.ts\<close>)\<close>

text \<open>
  A token is an object with a \<^verbatim>\<open>name\<close>; the map compares tokens by identity, which is
  the field \<open>ident\<close> here. A parameter of type \<^verbatim>\<open>ServiceToken\<close> can also be handed \<^verbatim>\<open>null\<close>
  or \<^verbatim>\<open>undefined\<close>, which \<^verbatim>\<open>registerService\<close> tests for.
\<close>

record ServiceToken =
  ident :: nat
  name :: string

datatype token_arg = TokUndefined | TokNull | Tok ServiceToken

type_synonym service_map = "token_arg \<rightharpoonup> jsval"

fun token_truthy :: "token_arg \<Rightarrow> bool" where
  "token_truthy TokUndefined = False"
| "token_truthy TokNull = False"
| "token_truthy (Tok t) = True"

text \<open>String concatenation \<^verbatim>\<open>"Invalid token: " + token\<close> for a falsy token.\<close>

fun token_to_string :: "token_arg \<Rightarrow> string" where
  "token_to_string TokUndefined = ''undefined''"
| "token_to_string TokNull = ''null''"
| "token_to_string (Tok t) = ''[object Object]''"

definition registerService :: "service_map \<Rightarrow> token_arg \<Rightarrow> jsval \<Rightarrow> js_error + service_map" where
  "registerService m token service =
     (if \<not> token_truthy token then Inl (Error (''Invalid token: '' @ token_to_string token))
      else Inr (m(token \<mapsto> service)))"

definition tryResolveService :: "service_map \<Rightarrow> token_arg \<Rightarrow> jsval" where
  "tryResolveService m token = (case m token of None \<Rightarrow> JUndefined | Some val \<Rightarrow> val)"

definition resolveService :: "service_map \<Rightarrow> token_arg \<Rightarrow> js_error + jsval" where
  "resolveService m token =
     (let val = tryResolveService m token in
      if \<not> truthy val then
        (case token of
           Tok t \<Rightarrow> Inl (Error (''Service with token '' @ name t @ '' was not found''))
         | _ \<Rightarrow> Inl TypeError)
      else Inr val)"

section \<open>\<^verbatim>\<open>dumpArray\<close> (\<^verbatim>\<open>common/logger\<close>)\<close>

text \<open>
  The array parameter may be \<^verbatim>\<open>null\<close> or \<^verbatim>\<open>undefined\<close>. The \<^verbatim>\<open>Logger\<close> interface is
  abstract: a logger is a state \<open>'l\<close> and \<open>debug\<close> its transition on one argument. The
  rendering of an element by \<^verbatim>\<open>"    " + val\<close> is the parameter \<open>toStr\<close>.
\<close>

datatype 'a js_array = ArrUndefined | ArrNull | Arr "'a list"

fun array_falsy_or_empty :: "'a js_array \<Rightarrow> bool" where
  "array_falsy_or_empty ArrUndefined = True"
| "array_falsy_or_empty ArrNull = True"
| "array_falsy_or_empty (Arr xs) = (length xs = 0)"

fun array_elements :: "'a js_array \<Rightarrow> 'a list" where
  "array_elements (Arr xs) = xs"
| "array_elements _ = []"

definition dumpArray ::
  "('l \<Rightarrow> string \<Rightarrow> 'l) \<Rightarrow> ('a \<Rightarrow> string) \<Rightarrow> 'l \<Rightarrow> string \<Rightarrow> 'a js_array \<Rightarrow> 'l" where
  "dumpArray debug toStr logger message arr =
     (let l1 = debug logger message in
      if array_falsy_or_empty arr then debug l1 ''NULL or EMPTY''
      else foldl (\<lambda>l val. debug l (''    '' @ toStr val)) l1 (array_elements arr))"

text \<open>A logger that only records the argument of every \<^verbatim>\<open>debug\<close> call, in order.\<close>

definition record_debug :: "string list \<Rightarrow> string \<Rightarrow> string list" where
  "record_debug calls s = calls @ [s]"

section \<open>The formatted line (\<^verbatim>\<open>MessagePrefixBuilder\<close>, \<^verbatim>\<open>buildFormatMessage\<close>)\<close>

text \<open>Decimal rendering of an integer, as \<^verbatim>\<open>"" + n\<close> gives it.\<close>

definition digit_char :: "nat \<Rightarrow> char" where
  "digit_char d = ''0123456789'' ! d"

fun nat_to_string :: "nat \<Rightarrow> string" where
  "nat_to_string n =
     (if n < 10 then [digit_char n] else nat_to_string (n div 10) @ [digit_char (n mod 10)])"

definition int_to_string :: "int \<Rightarrow> string" where
  "int_to_string i = (if i < 0 then CHR ''-'' # nat_to_string (nat (- i)) else nat_to_string (nat i))"

fun to_string :: "jsval \<Rightarrow> string" where
  "to_string JUndefined = ''undefined''"
| "to_string JNull = ''null''"
| "to_string (JBool b) = (if b then ''true'' else ''false'')"
| "to_string (JNum n) = int_to_string n"
| "to_string JNaN = ''NaN''"
| "to_string (JStr s) = s"
| "to_string (JService a) = ''[object Object]''"
| "to_string (JHandle a) = ''[object Object]''"
| "to_string (JObject a) = ''[object Object]''"

text \<open>
  \<^verbatim>\<open>MessageMetadata\<close>: every field is optional (\<open>None\<close> is an absent field). The fields
  carry the prefix \<open>meta_\<close> because \<open>appName\<close> is also a field of \<^verbatim>\<open>LoggerService\<close>.
\<close>

record MessageMetadata =
  meta_appName :: "string option"
  meta_pid :: "int option"
  meta_moduleName :: "string option"
  meta_contextName :: "string option"
  meta_contextId :: "int option"

definition str_field :: "string option \<Rightarrow> jsval" where
  "str_field f = (case f of None \<Rightarrow> JUndefined | Some s \<Rightarrow> JStr s)"

definition num_field :: "int option \<Rightarrow> jsval" where
  "num_field f = (case f of None \<Rightarrow> JUndefined | Some n \<Rightarrow> JNum n)"

record MessagePrefixBuilder =
  prefix :: string

definition MessagePrefixBuilder_new :: MessagePrefixBuilder where
  "MessagePrefixBuilder_new = \<lparr>prefix = ''''\<rparr>"

definition MessagePrefixBuilder_append :: "MessagePrefixBuilder \<Rightarrow> jsval \<Rightarrow> MessagePrefixBuilder" where
  "MessagePrefixBuilder_append this str =
     (if \<not> truthy str then this
      else (let p1 = (if prefix this \<noteq> [] then prefix this @ '':'' else prefix this)
            in this\<lparr>prefix := p1 @ to_string str\<rparr>))"

definition MessagePrefixBuilder_done :: "MessagePrefixBuilder \<Rightarrow> string" where
  "MessagePrefixBuilder_done this = prefix this"

text \<open>\<^verbatim>\<open>level.toUpperCase()\<close> on the ASCII letters the levels are written in.\<close>

definition upper_char :: "char \<Rightarrow> char" where
  "upper_char c =
     (case map_of (zip ''abcdefghijklmnopqrstuvwxyz'' ''ABCDEFGHIJKLMNOPQRSTUVWXYZ'') c of
        None \<Rightarrow> c
      | Some u \<Rightarrow> u)"

definition getLevelString :: "string \<Rightarrow> string" where
  "getLevelString level = map upper_char level"

text \<open>
  \<open>now\<close> is the text \<^verbatim>\<open>moment().format("HH:mm:ss:SSS")\<close> returns at the call: the clock is
  outside the program.
\<close>

definition buildFormatMessage :: "string \<Rightarrow> string \<Rightarrow> string \<Rightarrow> MessageMetadata \<Rightarrow> string" where
  "buildFormatMessage now level message meta =
     (let b0 = MessagePrefixBuilder_new;
          b1 = MessagePrefixBuilder_append b0 (str_field (meta_appName meta));
          b2 = MessagePrefixBuilder_append b1 (num_field (meta_pid meta));
          b3 = MessagePrefixBuilder_append b2 (str_field (meta_contextName meta));
          b4 = MessagePrefixBuilder_append b3 (num_field (meta_contextId meta));
          b5 = MessagePrefixBuilder_append b4 (str_field (meta_moduleName meta));
          prefix = MessagePrefixBuilder_done b5
      in now @ '' '' @ getLevelString level @ '' '' @ prefix @ '' '' @ message)"

text \<open>Joining a list of texts with a separator between neighbours.\<close>

fun join_with :: "string \<Rightarrow> string list \<Rightarrow> string" where
  "join_with sep [] = ''''"
| "join_with sep [x] = x"
| "join_with sep (x # y # ys) = x @ sep @ join_with sep (y # ys)"

text \<open>The five values of the prefix, in the order \<^verbatim>\<open>buildFormatMessage\<close> appends them.\<close>

definition prefix_values :: "MessageMetadata \<Rightarrow> jsval list" where
  "prefix_values meta =
     [str_field (meta_appName meta), num_field (meta_pid meta), str_field (meta_contextName meta),
      num_field (meta_contextId meta), str_field (meta_moduleName meta)]"

text \<open>
  The prefix in the words of the specification: a part is skipped when it is absent or
  empty, and every other value, a number included, is rendered and joined.
\<close>

definition present_nonempty :: "jsval \<Rightarrow> bool" where
  "present_nonempty v = (v \<noteq> JUndefined \<and> to_string v \<noteq> [])"

definition spec_prefix :: "MessageMetadata \<Rightarrow> string" where
  "spec_prefix meta = join_with '':'' (map to_string (filter present_nonempty (prefix_values meta)))"

definition spec_line :: "string \<Rightarrow> string \<Rightarrow> string \<Rightarrow> MessageMetadata \<Rightarrow> string" where
  "spec_line now level message meta =
     now @ '' '' @ getLevelString level @ '' '' @ spec_prefix meta @ '' '' @ message"

section \<open>The backend logger service (\<^verbatim>\<open>LoggerService\<close>)\<close>

text \<open>
  A property of an object literal is absent, or present with the value \<^verbatim>\<open>undefined\<close>,
  \<^verbatim>\<open>null\<close> or a value of its type. Spreading copies the properties that are present,
  whatever their value.
\<close>

datatype 'a jsprop = Absent | Undef | Null | Val 'a

fun prop_truthy :: "'a jsprop \<Rightarrow> bool" where
  "prop_truthy (Val x) = True"
| "prop_truthy _ = False"

fun prop_array :: "'a list jsprop \<Rightarrow> 'a list" where
  "prop_array (Val xs) = xs"
| "prop_array _ = []"

record LoggerOptions =
  enabled :: "string list jsprop"
  disabled :: "string list jsprop"
  verbose :: "bool jsprop"

text \<open>
  An options object is its identity together with its properties. No code of the module
  writes a property of an options object after the literal that creates it, so the two
  travel together; two references are the same object when the identities agree.
\<close>

record options_obj =
  opt_id :: nat
  opt_fields :: LoggerOptions

definition no_props :: LoggerOptions where
  "no_props = \<lparr>enabled = Absent, disabled = Absent, verbose = Absent\<rparr>"

definition assign_prop :: "'a jsprop \<Rightarrow> 'a jsprop \<Rightarrow> 'a jsprop" where
  "assign_prop target src = (case src of Absent \<Rightarrow> target | _ \<Rightarrow> src)"

definition assign_props :: "LoggerOptions \<Rightarrow> LoggerOptions \<Rightarrow> LoggerOptions" where
  "assign_props target src =
     \<lparr>enabled = assign_prop (enabled target) (enabled src),
      disabled = assign_prop (disabled target) (disabled src),
      verbose = assign_prop (verbose target) (verbose src)\<rparr>"

text \<open>\<^verbatim>\<open>{...a, ...b}\<close>: a fresh literal, then the properties of \<open>a\<close> (none when \<open>a\<close> is
  \<^verbatim>\<open>null\<close> or \<^verbatim>\<open>undefined\<close>), then those of \<open>b\<close>.\<close>

definition spread2 :: "LoggerOptions option \<Rightarrow> LoggerOptions \<Rightarrow> LoggerOptions" where
  "spread2 a b =
     assign_props (case a of None \<Rightarrow> no_props | Some fa \<Rightarrow> assign_props no_props fa) b"

text \<open>
  \<open>logMethod\<close> is the identity of the emit function handed to the constructor;
  \<open>options\<close> is \<open>None\<close> when the field holds \<^verbatim>\<open>null\<close> or \<^verbatim>\<open>undefined\<close>, which
  \<^verbatim>\<open>log\<close> tests for.
\<close>

record LoggerService =
  appName :: "string option"
  logMethod :: nat
  options :: "options_obj option"
  disabledModules :: "string set"

definition LoggerService_new :: "nat \<Rightarrow> string option \<Rightarrow> nat \<Rightarrow> LoggerService" where
  "LoggerService_new oid app method =
     \<lparr>appName = app, logMethod = method,
      options = Some \<lparr>opt_id = oid, opt_fields = \<lparr>enabled = Null, disabled = Null, verbose = Val True\<rparr>\<rparr>,
      disabledModules = {}\<rparr>"

text \<open>\<^verbatim>\<open>this.options && this.options.f\<close>.\<close>

definition options_field :: "options_obj option \<Rightarrow> (LoggerOptions \<Rightarrow> 'a jsprop) \<Rightarrow> 'a jsprop" where
  "options_field opts f = (case opts of None \<Rightarrow> Null | Some ob \<Rightarrow> f (opt_fields ob))"

text \<open>The block under \<^verbatim>\<open>if(moduleName)\<close>: true when one of its two \<^verbatim>\<open>return\<close>s is reached.\<close>

definition filtered_out :: "LoggerService \<Rightarrow> string \<Rightarrow> bool" where
  "filtered_out this moduleName =
     (let dis = options_field (options this) disabled;
          en = options_field (options this) enabled
      in if prop_truthy dis \<and> moduleName \<in> set (prop_array dis) then True
         else if \<not> prop_truthy dis \<and> prop_truthy en \<and> moduleName \<notin> set (prop_array en) then True
         else False)"

text \<open>One call of the emit function: which function, and its three arguments.\<close>

record sink_call =
  sc_sink :: nat
  sc_level :: string
  sc_message :: string
  sc_meta :: MessageMetadata

text \<open>
  \<^verbatim>\<open>LoggerService.log\<close>: \<open>None\<close> when the call returns without calling the emit function,
  otherwise the call it makes. \<open>pid\<close> is \<^verbatim>\<open>process.pid\<close>.
\<close>

definition LoggerService_log ::
  "int \<Rightarrow> LoggerService \<Rightarrow> string \<Rightarrow> string \<Rightarrow> MessageMetadata \<Rightarrow> sink_call option" where
  "LoggerService_log pid this level message meta =
     (let moduleName = str_field (meta_moduleName meta) in
      if truthy moduleName \<and> filtered_out this (to_string moduleName) then None
      else
        (let meta1 = (if truthy (str_field (appName this)) then meta\<lparr>meta_appName := appName this\<rparr> else meta);
             meta2 = meta1\<lparr>meta_pid := Some pid\<rparr>
         in Some \<lparr>sc_sink = logMethod this, sc_level = level, sc_message = message, sc_meta = meta2\<rparr>))"

definition LoggerService_configure :: "LoggerService \<Rightarrow> options_obj option \<Rightarrow> LoggerService" where
  "LoggerService_configure this opts = this\<lparr>options := opts\<rparr>"

definition LoggerService_disable :: "LoggerService \<Rightarrow> string list \<Rightarrow> LoggerService" where
  "LoggerService_disable this moduleNames =
     this\<lparr>disabledModules := foldl (\<lambda>S moduleName. insert moduleName S) (disabledModules this) moduleNames\<rparr>"

definition LoggerService_isDisabled :: "LoggerService \<Rightarrow> string \<Rightarrow> bool" where
  "LoggerService_isDisabled this moduleName = (moduleName \<in> disabledModules this)"

text \<open>
  The filter in the words of the specification, for a module name \<open>m\<close>, a disabled list
  and an enabled list (\<open>None\<close> for a list that is not set): dropped if the disabled
  list is set and contains \<open>m\<close>; else dropped if the enabled list is set and does not
  contain \<open>m\<close>; otherwise forwarded. The disabled list comes first, so it wins where
  both lists speak.
\<close>

definition spec_dropped :: "string list option \<Rightarrow> string list option \<Rightarrow> string \<Rightarrow> bool" where
  "spec_dropped dis en m =
     (if (case dis of None \<Rightarrow> False | Some d \<Rightarrow> m \<in> set d) then True
      else if (case en of None \<Rightarrow> False | Some e \<Rightarrow> m \<notin> set e) then True
      else False)"

text \<open>
  The filter with the disabled list authoritative: when it is set it decides alone, and
  the enabled list is consulted only when the disabled list is not set.
\<close>

definition authoritative_dropped :: "string list option \<Rightarrow> string list option \<Rightarrow> string \<Rightarrow> bool" where
  "authoritative_dropped dis en m =
     (case dis of
        Some d \<Rightarrow> m \<in> set d
      | None \<Rightarrow> (case en of Some e \<Rightarrow> m \<notin> set e | None \<Rightarrow> False))"

fun prop_list :: "'a list jsprop \<Rightarrow> 'a list option" where
  "prop_list (Val xs) = Some xs"
| "prop_list _ = None"

section \<open>The process state\<close>

text \<open>
  The objects of each class live in a list of their own; an address is a position in it
  and allocation appends. \<open>sink_calls\<close> lists the calls of emit functions made so far,
  and \<open>log_calls\<close> lists the calls of \<^verbatim>\<open>LoggerService.log\<close> entered so far, each with the
  address of the service it was called on: both only record what the program did.
  \<open>next_id\<close> numbers the options objects.
\<close>

record LoggerServiceHandle =
  logger :: jsval

text \<open>\<^verbatim>\<open>ModuleLogger\<close>: the fields \<^verbatim>\<open>name\<close>, \<^verbatim>\<open>handle\<close>, \<^verbatim>\<open>disabled\<close>, prefixed because
  \<open>name\<close> and \<open>disabled\<close> are fields of other classes too. \<open>ml_handle\<close> is \<open>None\<close>
  while \<^verbatim>\<open>this.handle\<close> is \<^verbatim>\<open>undefined\<close>.\<close>

record ModuleLogger =
  ml_name :: string
  ml_handle :: "nat option"
  ml_disabled :: bool

record LoggerConfigGuard =
  guard_options :: LoggerOptions
  guard_logger :: jsval
  originalOptions :: "options_obj option"

record world =
  registry :: service_map
  services :: "LoggerService list"
  handles :: "LoggerServiceHandle list"
  loggers :: "ModuleLogger list"
  guards :: "LoggerConfigGuard list"
  next_id :: nat
  sink_calls :: "sink_call list"
  log_calls :: "(nat \<times> string \<times> string \<times> MessageMetadata) list"

text \<open>What the module takes from outside: \<^verbatim>\<open>process.pid\<close> and \<^verbatim>\<open>util.format\<close>.\<close>

record env =
  pid :: int
  util_format :: "jsval list \<Rightarrow> string"

definition LOGGER_HANDLE :: ServiceToken where
  "LOGGER_HANDLE = \<lparr>ident = 0, name = ''LOGGER_HANDLE''\<rparr>"

definition LOGGER :: ServiceToken where
  "LOGGER = \<lparr>ident = 1, name = ''LOGGER''\<rparr>"

definition service_at :: "world \<Rightarrow> jsval \<Rightarrow> (nat \<times> LoggerService) option" where
  "service_at w v =
     (case v of
        JService a \<Rightarrow> (if a < length (services w) then Some (a, services w ! a) else None)
      | _ \<Rightarrow> None)"

definition handle_at :: "world \<Rightarrow> jsval \<Rightarrow> (nat \<times> LoggerServiceHandle) option" where
  "handle_at w v =
     (case v of
        JHandle a \<Rightarrow> (if a < length (handles w) then Some (a, handles w ! a) else None)
      | _ \<Rightarrow> None)"

text \<open>
  A method call \<^verbatim>\<open>target.log(level, message, meta)\<close>. A target that is no
  \<^verbatim>\<open>LoggerService\<close> has no such method: a \<^verbatim>\<open>TypeError\<close>.
\<close>

definition call_log ::
  "env \<Rightarrow> world \<Rightarrow> jsval \<Rightarrow> string \<Rightarrow> string \<Rightarrow> MessageMetadata \<Rightarrow> js_error + world" where
  "call_log e w target level message meta =
     (case service_at w target of
        None \<Rightarrow> Inl TypeError
      | Some (a, this) \<Rightarrow>
          (let w1 = w\<lparr>log_calls := log_calls w @ [(a, level, message, meta)]\<rparr> in
           case LoggerService_log (pid e) this level message meta of
             None \<Rightarrow> Inr w1
           | Some c \<Rightarrow> Inr (w1\<lparr>sink_calls := sink_calls w1 @ [c]\<rparr>)))"

definition call_configure :: "world \<Rightarrow> jsval \<Rightarrow> options_obj option \<Rightarrow> js_error + world" where
  "call_configure w target opts =
     (case service_at w target of
        None \<Rightarrow> Inl TypeError
      | Some (a, this) \<Rightarrow> Inr (w\<lparr>services := (services w)[a := LoggerService_configure this opts]\<rparr>))"

definition call_disable :: "world \<Rightarrow> jsval \<Rightarrow> string list \<Rightarrow> js_error + world" where
  "call_disable w target moduleNames =
     (case service_at w target of
        None \<Rightarrow> Inl TypeError
      | Some (a, this) \<Rightarrow> Inr (w\<lparr>services := (services w)[a := LoggerService_disable this moduleNames]\<rparr>))"

section \<open>\<^verbatim>\<open>ModuleLogger\<close>\<close>

definition createLogger :: "world \<Rightarrow> string \<Rightarrow> nat \<times> world" where
  "createLogger w nm =
     (length (loggers w),
      w\<lparr>loggers := loggers w @ [\<lparr>ml_name = nm, ml_handle = None, ml_disabled = False\<rparr>]\<rparr>)"

text \<open>
  \<^verbatim>\<open>attachToLoggerService\<close> of the logger at address \<open>x\<close>. In the backward compatible
  branch the literal \<^verbatim>\<open>{logger}\<close> is a new handle object that the registry does not hold.
  \<^verbatim>\<open>handle.logger.isDisabled\<close> is a \<^verbatim>\<open>TypeError\<close> when the registry holds something that
  is no handle, or the handle something that is no service; the assignments of a call that
  throws are not made.
\<close>

definition attachToLoggerService :: "world \<Rightarrow> nat \<Rightarrow> js_error + world" where
  "attachToLoggerService w x =
     (if \<not> x < length (loggers w) then Inl TypeError
      else
        (let this = loggers w ! x in
         if ml_handle this \<noteq> None then Inr w
         else
           (let handle0 = tryResolveService (registry w) (Tok LOGGER_HANDLE);
                logger0 = tryResolveService (registry w) (Tok LOGGER)
            in if \<not> truthy handle0 \<and> \<not> truthy logger0
               then Inr (w\<lparr>loggers := (loggers w)[x := this\<lparr>ml_disabled := True\<rparr>]\<rparr>)
               else
                 (let w1 = (if \<not> truthy handle0
                            then w\<lparr>handles := handles w @ [\<lparr>logger = logger0\<rparr>]\<rparr> else w);
                      handle = (if \<not> truthy handle0 then JHandle (length (handles w)) else handle0)
                  in case handle_at w1 handle of
                       None \<Rightarrow> Inl TypeError
                     | Some (h, hr) \<Rightarrow>
                         (case service_at w1 (logger hr) of
                            None \<Rightarrow> Inl TypeError
                          | Some (s, svc) \<Rightarrow>
                              (let this1 = (if LoggerService_isDisabled svc (ml_name this)
                                            then this\<lparr>ml_disabled := True\<rparr> else this)
                               in Inr (w1\<lparr>loggers := (loggers w1)[x := this1\<lparr>ml_handle := Some h\<rparr>]\<rparr>)))))))"

text \<open>The literal \<^verbatim>\<open>{moduleName: this.name}\<close>.\<close>

definition module_meta :: "string \<Rightarrow> MessageMetadata" where
  "module_meta nm =
     \<lparr>meta_appName = None, meta_pid = None, meta_moduleName = Some nm,
      meta_contextName = None, meta_contextId = None\<rparr>"

definition ensureInit :: "world \<Rightarrow> nat \<Rightarrow> js_error + world" where
  "ensureInit w x =
     (if \<not> x < length (loggers w) then Inl TypeError
      else if ml_handle (loggers w ! x) = None then attachToLoggerService w x
      else Inr w)"

definition ModuleLogger_log :: "env \<Rightarrow> world \<Rightarrow> nat \<Rightarrow> string \<Rightarrow> jsval list \<Rightarrow> js_error + world" where
  "ModuleLogger_log e w x level args =
     (case ensureInit w x of
        Inl err \<Rightarrow> Inl err
      | Inr w1 \<Rightarrow>
          (let this = loggers w1 ! x in
           if ml_disabled this then Inr w1
           else
             (case ml_handle this of
                None \<Rightarrow> Inl TypeError
              | Some h \<Rightarrow>
                  (case handle_at w1 (JHandle h) of
                     None \<Rightarrow> Inl TypeError
                   | Some (h', hr) \<Rightarrow>
                       call_log e w1 (logger hr) level (util_format e args)
                         (module_meta (ml_name this))))))"

definition ModuleLogger_debug :: "env \<Rightarrow> world \<Rightarrow> nat \<Rightarrow> jsval list \<Rightarrow> js_error + world" where
  "ModuleLogger_debug e w x args = ModuleLogger_log e w x ''debug'' args"

definition ModuleLogger_warn :: "env \<Rightarrow> world \<Rightarrow> nat \<Rightarrow> jsval list \<Rightarrow> js_error + world" where
  "ModuleLogger_warn e w x args = ModuleLogger_log e w x ''warn'' args"

definition ModuleLogger_error :: "env \<Rightarrow> world \<Rightarrow> nat \<Rightarrow> jsval list \<Rightarrow> js_error + world" where
  "ModuleLogger_error e w x args = ModuleLogger_log e w x ''error'' args"

section \<open>\<^verbatim>\<open>registerLogger\<close>\<close>

text \<open>
  With no truthy value under \<^verbatim>\<open>LOGGER_HANDLE\<close> a new handle object is registered; otherwise
  the field of the registered handle is assigned. The assignment is a \<^verbatim>\<open>TypeError\<close> when
  the registry holds something that is no handle object.
\<close>

definition registerLogger :: "world \<Rightarrow> jsval \<Rightarrow> js_error + world" where
  "registerLogger w lg =
     (let handle = tryResolveService (registry w) (Tok LOGGER_HANDLE) in
      case (if \<not> truthy handle then
              (case registerService (registry w) (Tok LOGGER_HANDLE) (JHandle (length (handles w))) of
                 Inl err \<Rightarrow> Inl err
               | Inr m \<Rightarrow> Inr (w\<lparr>handles := handles w @ [\<lparr>logger = lg\<rparr>], registry := m\<rparr>))
            else
              (case handle_at w handle of
                 None \<Rightarrow> Inl TypeError
               | Some (h, hr) \<Rightarrow> Inr (w\<lparr>handles := (handles w)[h := hr\<lparr>logger := lg\<rparr>]\<rparr>)))
      of
        Inl err \<Rightarrow> Inl err
      | Inr w1 \<Rightarrow>
          (case registerService (registry w1) (Tok LOGGER) lg of
             Inl err \<Rightarrow> Inl err
           | Inr m \<Rightarrow> Inr (w1\<lparr>registry := m\<rparr>)))"

section \<open>\<^verbatim>\<open>LoggerConfigGuard\<close>\<close>

text \<open>The constructor returns the address of the new guard and the state it leaves.\<close>

definition LoggerConfigGuard_new :: "world \<Rightarrow> LoggerOptions \<Rightarrow> js_error + (nat \<times> world)" where
  "LoggerConfigGuard_new w opts =
     (case resolveService (registry w) (Tok LOGGER) of
        Inl err \<Rightarrow> Inl err
      | Inr lg \<Rightarrow>
          (if truthy lg then
             (case service_at w lg of
                None \<Rightarrow> Inl TypeError
              | Some (s, svc) \<Rightarrow>
                  (let orig = options svc;
                       merged = \<lparr>opt_id = next_id w,
                                 opt_fields = spread2 (map_option opt_fields orig) opts\<rparr>;
                       this = \<lparr>guard_options = opts, guard_logger = lg, originalOptions = orig\<rparr>
                   in Inr (length (guards w),
                           w\<lparr>services := (services w)[s := LoggerService_configure svc (Some merged)],
                             guards := guards w @ [this],
                             next_id := Suc (next_id w)\<rparr>)))
           else
             Inr (length (guards w),
                  w\<lparr>guards := guards w @
                       [\<lparr>guard_options = opts, guard_logger = lg, originalOptions = None\<rparr>]\<rparr>)))"

definition LoggerConfigGuard_dispose :: "world \<Rightarrow> nat \<Rightarrow> js_error + world" where
  "LoggerConfigGuard_dispose w g =
     (if \<not> g < length (guards w) then Inl TypeError
      else
        (let this = guards w ! g in
         if truthy (guard_logger this)
         then call_configure w (guard_logger this) (originalOptions this)
         else Inr w))"

definition disableLogger :: "world \<Rightarrow> string \<Rightarrow> js_error + (nat \<times> world)" where
  "disableLogger w nm =
     LoggerConfigGuard_new w \<lparr>enabled = Absent, disabled = Val [nm], verbose = Absent\<rparr>"

definition disableLoggerBut :: "world \<Rightarrow> string list \<Rightarrow> js_error + (nat \<times> world)" where
  "disableLoggerBut w names =
     LoggerConfigGuard_new w \<lparr>enabled = Val names, disabled = Absent, verbose = Absent\<rparr>"

section \<open>Sequences of calls\<close>

text \<open>
  The calls a program makes on the module. An address names an object the program
  holds: a call on an address that holds no object of the class is a call on
  \<^verbatim>\<open>undefined\<close>, a \<^verbatim>\<open>TypeError\<close>. \<open>RegisterLegacy\<close> is
  \<^verbatim>\<open>registerService(LOGGER, service)\<close>, the registration the backward compatible branch of
  \<^verbatim>\<open>attachToLoggerService\<close> serves; \<open>NewLoggerService\<close> is \<^verbatim>\<open>new LoggerService(appName,
  logMethod)\<close>.
\<close>

datatype op =
    NewLoggerService "string option" nat
  | RegisterLogger nat
  | RegisterLegacy nat
  | CreateLogger string
  | Debug nat "jsval list"
  | Warn nat "jsval list"
  | ErrorCall nat "jsval list"
  | Configure nat "options_obj option"
  | Disable nat "string list"
  | ServiceLog nat string string MessageMetadata
  | NewGuard LoggerOptions
  | Dispose nat

definition step :: "env \<Rightarrow> world \<Rightarrow> op \<Rightarrow> js_error + world" where
  "step e w c =
     (case c of
        NewLoggerService app method \<Rightarrow>
          Inr (w\<lparr>services := services w @ [LoggerService_new (next_id w) app method],
                 next_id := Suc (next_id w)\<rparr>)
      | RegisterLogger s \<Rightarrow>
          (if s < length (services w) then registerLogger w (JService s) else Inl TypeError)
      | RegisterLegacy s \<Rightarrow>
          (if s < length (services w)
           then (case registerService (registry w) (Tok LOGGER) (JService s) of
                   Inl err \<Rightarrow> Inl err
                 | Inr m \<Rightarrow> Inr (w\<lparr>registry := m\<rparr>))
           else Inl TypeError)
      | CreateLogger nm \<Rightarrow> Inr (snd (createLogger w nm))
      | Debug x args \<Rightarrow> ModuleLogger_debug e w x args
      | Warn x args \<Rightarrow> ModuleLogger_warn e w x args
      | ErrorCall x args \<Rightarrow> ModuleLogger_error e w x args
      | Configure s opts \<Rightarrow> call_configure w (JService s) opts
      | Disable s moduleNames \<Rightarrow> call_disable w (JService s) moduleNames
      | ServiceLog s level message meta \<Rightarrow> call_log e w (JService s) level message meta
      | NewGuard opts \<Rightarrow> map_sum id snd (LoggerConfigGuard_new w opts)
      | Dispose g \<Rightarrow> LoggerConfigGuard_dispose w g)"

text \<open>A call that throws leaves the state as it was; the program goes on.\<close>

definition apply_op :: "env \<Rightarrow> world \<Rightarrow> op \<Rightarrow> world" where
  "apply_op e w c = (case step e w c of Inl err \<Rightarrow> w | Inr w' \<Rightarrow> w')"

definition run :: "env \<Rightarrow> world \<Rightarrow> op list \<Rightarrow> world" where
  "run e w cs = foldl (apply_op e) w cs"

definition init :: world where
  "init = \<lparr>registry = Map.empty, services = [], handles = [], loggers = [], guards = [],
           next_id = 0, sink_calls = [], log_calls = []\<rparr>"

text \<open>
  The states of a typed program: what the registry holds under the two tokens of the
  module is falsy or an object of the token's type, the field of every handle is a
  service, and every reference held by a module logger or a guard points to an object.
\<close>

definition falsy_or_handle :: "world \<Rightarrow> jsval \<Rightarrow> bool" where
  "falsy_or_handle w v = (if truthy v then handle_at w v \<noteq> None else True)"

definition falsy_or_service :: "world \<Rightarrow> jsval \<Rightarrow> bool" where
  "falsy_or_service w v = (if truthy v then service_at w v \<noteq> None else True)"

definition handle_field_ok :: "world \<Rightarrow> LoggerServiceHandle \<Rightarrow> bool" where
  "handle_field_ok w hr = (service_at w (logger hr) \<noteq> None)"

definition logger_ref_ok :: "world \<Rightarrow> ModuleLogger \<Rightarrow> bool" where
  "logger_ref_ok w ml = (case ml_handle ml of None \<Rightarrow> True | Some h \<Rightarrow> h < length (handles w))"

definition wf :: "world \<Rightarrow> bool" where
  "wf w =
     (falsy_or_handle w (tryResolveService (registry w) (Tok LOGGER_HANDLE)) \<and>
      falsy_or_service w (tryResolveService (registry w) (Tok LOGGER)) \<and>
      list_all (handle_field_ok w) (handles w) \<and>
      list_all (logger_ref_ok w) (loggers w) \<and>
      list_all (\<lambda>g. falsy_or_service w (guard_logger g)) (guards w))"

section \<open>Auxiliary notions for the statements and proofs\<close>

text \<open>The arguments of the \<^verbatim>\<open>debug\<close> calls of \<^verbatim>\<open>dumpArray\<close>, in order.\<close>

definition dumpArray_calls :: "('a \<Rightarrow> string) \<Rightarrow> string \<Rightarrow> 'a js_array \<Rightarrow> string list" where
  "dumpArray_calls toStr message arr =
     message # (if array_falsy_or_empty arr then [''NULL or EMPTY'']
                else map (\<lambda>val. ''    '' @ toStr val) (array_elements arr))"

text \<open>The renderings of the truthy values of a list, in order.\<close>

definition truthy_parts :: "jsval list \<Rightarrow> string list" where
  "truthy_parts vs = map to_string (filter truthy vs)"

text \<open>The metadata as \<^verbatim>\<open>LoggerService.log\<close> hands it to the emit function.\<close>

definition stamped :: "int \<Rightarrow> LoggerService \<Rightarrow> MessageMetadata \<Rightarrow> MessageMetadata" where
  "stamped p this meta =
     (if truthy (str_field (appName this)) then meta\<lparr>meta_appName := appName this\<rparr> else meta)
       \<lparr>meta_pid := Some p\<rparr>"



text \<open>The two records of the state a call returns, \<open>None\<close> when it threw.\<close>

definition log_calls_of :: "js_error + world \<Rightarrow> (nat \<times> string \<times> string \<times> MessageMetadata) list option" where
  "log_calls_of r = (case r of Inl err \<Rightarrow> None | Inr w' \<Rightarrow> Some (log_calls w'))"

definition sink_calls_of :: "js_error + world \<Rightarrow> sink_call list option" where
  "sink_calls_of r = (case r of Inl err \<Rightarrow> None | Inr w' \<Rightarrow> Some (sink_calls w'))"

text \<open>The sequences of calls with no \<^verbatim>\<open>registerLogger\<close> among them.\<close>

fun is_register :: "op \<Rightarrow> bool" where
  "is_register (RegisterLogger s) = True"
| "is_register _ = False"

definition no_register :: "op list \<Rightarrow> bool" where
  "no_register cs = list_all (\<lambda>c. \<not> is_register c) cs"

text \<open>The property a guard saved, absent when the saved configuration was \<^verbatim>\<open>null\<close>.\<close>

definition saved_field :: "options_obj option \<Rightarrow> (LoggerOptions \<Rightarrow> 'a jsprop) \<Rightarrow> 'a jsprop" where
  "saved_field saved f = (case saved of None \<Rightarrow> Absent | Some ob \<Rightarrow> f (opt_fields ob))"

text \<open>
  What every call keeps of a state: objects are never removed, a guard is never written
  after its construction, a module logger keeps its name, stays disabled once it is, and
  is not written at all once its handle is set. \<open>handles_kept\<close> adds that no handle
  was written.
\<close>

definition frame :: "world \<Rightarrow> world \<Rightarrow> bool" where
  "frame w w' \<longleftrightarrow>
     length (services w) \<le> length (services w') \<and>
     length (handles w) \<le> length (handles w') \<and>
     length (loggers w) \<le> length (loggers w') \<and>
     (\<forall>x < length (loggers w).
        ml_name (loggers w' ! x) = ml_name (loggers w ! x) \<and>
        (ml_disabled (loggers w ! x) \<longrightarrow> ml_disabled (loggers w' ! x)) \<and>
        (ml_handle (loggers w ! x) \<noteq> None \<longrightarrow> loggers w' ! x = loggers w ! x)) \<and>
     length (guards w) \<le> length (guards w') \<and>
     (\<forall>g < length (guards w). guards w' ! g = guards w ! g)"

definition handles_kept :: "world \<Rightarrow> world \<Rightarrow> bool" where
  "handles_kept w w' \<longleftrightarrow>
     length (handles w) \<le> length (handles w') \<and>
     (\<forall>h < length (handles w). handles w' ! h = handles w ! h)"

definition is_svc :: "nat \<Rightarrow> jsval \<Rightarrow> bool" where
  "is_svc n v = (\<exists>a. v = JService a \<and> a < n)"

definition is_hdl :: "nat \<Rightarrow> jsval \<Rightarrow> bool" where
  "is_hdl n v = (\<exists>a. v = JHandle a \<and> a < n)"

text \<open>Concrete inputs for the examples: a stand-in for \<^verbatim>\<open>util.format\<close>, and some states.\<close>

definition plain_format :: "jsval list \<Rightarrow> string" where
  "plain_format args = join_with '' '' (map to_string args)"

definition env0 :: env where
  "env0 = \<lparr>pid = 4242, util_format = plain_format\<rparr>"


definition world_bound :: world where
  "world_bound =
     run env0 init
       [NewLoggerService (Some ''app'') 7, RegisterLogger 0, CreateLogger ''svc'',
        Debug 0 [JStr ''one''], CreateLogger ''svc'', NewLoggerService (Some ''app'') 8]"

definition world_disabled :: world where
  "world_disabled =
     world_bound\<lparr>services := (services world_bound)
       [0 := (services world_bound ! 0)\<lparr>disabledModules := {''svc''}\<rparr>]\<rparr>"

definition only_a_b :: LoggerOptions where
  "only_a_b = \<lparr>enabled = Val [''a'', ''b''], disabled = Absent, verbose = Absent\<rparr>"

definition default_options :: "nat \<Rightarrow> options_obj" where
  "default_options i = \<lparr>opt_id = i, opt_fields = \<lparr>enabled = Null, disabled = Null, verbose = Val True\<rparr>\<rparr>"

definition svc_ex :: "string list jsprop \<Rightarrow> string list jsprop \<Rightarrow> LoggerService" where
  "svc_ex d e = \<lparr>appName = Some ''app'', logMethod = 7,
      options = Some \<lparr>opt_id = 0, opt_fields = \<lparr>enabled = e, disabled = d, verbose = Val True\<rparr>\<rparr>,
      disabledModules = {}\<rparr>"

section \<open>The service locator\<close>

text \<open>
  Claim C7. \<^verbatim>\<open>registerService\<close> with a \<^verbatim>\<open>null\<close> or \<^verbatim>\<open>undefined\<close> token throws the
  invalid token error (the result is the error alone: the registry stays \<open>m\<close>), and with
  a token object it stores the value over whatever the token held. \<^verbatim>\<open>resolveService\<close> on
  a token object that holds no value throws the not found error, and
  \<^verbatim>\<open>tryResolveService\<close> on a token that holds no value returns the absent value without
  throwing; \<^verbatim>\<open>Map.get\<close> gives \<^verbatim>\<open>undefined\<close> there, which is what the specification calls
  null. The two errors are \<^verbatim>\<open>Error\<close> objects told apart by their messages.
\<close>

theorem service_locator_contract:
  "registerService m TokNull v = Inl (Error ''Invalid token: null'')
   \<and> registerService m TokUndefined v = Inl (Error ''Invalid token: undefined'')
   \<and> registerService m (Tok k) v = Inr (m(Tok k \<mapsto> v))
   \<and> (m (Tok k) = None \<longrightarrow>
        resolveService m (Tok k) = Inl (Error (''Service with token '' @ name k @ '' was not found'')))
   \<and> (m t = None \<longrightarrow> tryResolveService m t = JUndefined)"
  by (simp add: registerService_def resolveService_def tryResolveService_def)

theorem service_locator_contract_witness:
  "registerService Map.empty TokNull (JNum 7) = Inl (Error ''Invalid token: null'')
   \<and> registerService Map.empty TokUndefined (JNum 7) = Inl (Error ''Invalid token: undefined'')
   \<and> registerService Map.empty (Tok LOGGER) (JNum 7) = Inr [Tok LOGGER \<mapsto> JNum 7]
   \<and> resolveService Map.empty (Tok LOGGER) = Inl (Error ''Service with token LOGGER was not found'')
   \<and> tryResolveService Map.empty TokNull = JUndefined"
  using service_locator_contract [of Map.empty "JNum 7" LOGGER TokNull]
  by (simp add: LOGGER_def)

text \<open>
  Claim C9. A token registered with a value \<open>v\<close>: \<^verbatim>\<open>tryResolveService\<close> returns \<open>v\<close>
  itself. When \<open>v\<close> is falsy, \<^verbatim>\<open>resolveService\<close> throws the not found error, the very
  outcome it has when the token holds nothing, and the result of \<^verbatim>\<open>tryResolveService\<close>
  is falsy as it is for a token that holds nothing, so a caller testing it as
  \<^verbatim>\<open>resolveService\<close> does cannot tell the two apart. \<^verbatim>\<open>resolveService\<close> returns the
  registered value exactly when it is truthy, and throws exactly when it is not.
\<close>

theorem falsy_registration:
  "registerService m (Tok k) v = Inr (m(Tok k \<mapsto> v))
   \<and> tryResolveService (m(Tok k \<mapsto> v)) (Tok k) = v
   \<and> (\<not> truthy v \<longrightarrow>
        resolveService (m(Tok k \<mapsto> v)) (Tok k)
          = Inl (Error (''Service with token '' @ name k @ '' was not found''))
        \<and> resolveService (m(Tok k \<mapsto> v)) (Tok k) = resolveService (m(Tok k := None)) (Tok k)
        \<and> truthy (tryResolveService (m(Tok k \<mapsto> v)) (Tok k))
            = truthy (tryResolveService (m(Tok k := None)) (Tok k)))
   \<and> ((resolveService (m(Tok k \<mapsto> v)) (Tok k) = Inr v) = truthy v)
   \<and> (isl (resolveService (m(Tok k \<mapsto> v)) (Tok k)) = (\<not> truthy v))"
  by (simp add: registerService_def resolveService_def tryResolveService_def)

theorem falsy_registration_witness:
  "list_all (\<lambda>v. tryResolveService [Tok LOGGER \<mapsto> v] (Tok LOGGER) = v
       \<and> resolveService [Tok LOGGER \<mapsto> v] (Tok LOGGER)
           = Inl (Error ''Service with token LOGGER was not found''))
     [JNull, JUndefined, JNum 0, JStr '''', JBool False]
   \<and> resolveService [Tok LOGGER \<mapsto> JNum 5] (Tok LOGGER) = Inr (JNum 5)"
  using falsy_registration [of Map.empty LOGGER JNull]
    falsy_registration [of Map.empty LOGGER JUndefined]
    falsy_registration [of Map.empty LOGGER "JNum 0"]
    falsy_registration [of Map.empty LOGGER "JStr ''''"]
    falsy_registration [of Map.empty LOGGER "JBool False"]
    falsy_registration [of Map.empty LOGGER "JNum 5"]
  by (simp add: LOGGER_def)

section \<open>\<^verbatim>\<open>dumpArray\<close>\<close>

lemma foldl_record_debug: "foldl record_debug l xs = l @ xs"
  by (induction xs arbitrary: l) (simp_all add: record_debug_def)

lemma foldl_debug_map:
  "foldl (\<lambda>l val. debug l (f val)) l xs = foldl debug l (map f xs)"
  by (induction xs arbitrary: l) simp_all

lemma dumpArray_foldl:
  "dumpArray debug toStr l s a = foldl debug l (dumpArray_calls toStr s a)"
proof (cases "array_falsy_or_empty a")
  case True
  then show ?thesis by (simp add: dumpArray_def dumpArray_calls_def)
next
  case False
  have "foldl (\<lambda>l val. debug l (''    '' @ toStr val)) (debug l s) (array_elements a)
          = foldl debug (debug l s) (map (\<lambda>val. ''    '' @ toStr val) (array_elements a))"
    by (rule foldl_debug_map)
  with False show ?thesis by (simp add: dumpArray_def dumpArray_calls_def)
qed

text \<open>
  Claim C10. For every logger, whatever its \<^verbatim>\<open>debug\<close> does, \<^verbatim>\<open>dumpArray\<close> makes the
  \<^verbatim>\<open>debug\<close> calls of \<open>dumpArray_calls\<close> in order: first the message; then
  \<^verbatim>\<open>"NULL or EMPTY"\<close> when the array is \<^verbatim>\<open>null\<close>, \<^verbatim>\<open>undefined\<close> or empty, two calls in
  all; otherwise one call per element in array order, the rendering of the element after
  four spaces, so \<open>n\<close> further calls for \<open>n\<close> elements.
\<close>

theorem dumpArray_debug_calls:
  "dumpArray debug toStr l s a = foldl debug l (dumpArray_calls toStr s a)
   \<and> dumpArray record_debug toStr [] s a = dumpArray_calls toStr s a
   \<and> hd (dumpArray_calls toStr s a) = s
   \<and> dumpArray_calls toStr s ArrNull = [s, ''NULL or EMPTY'']
   \<and> dumpArray_calls toStr s ArrUndefined = [s, ''NULL or EMPTY'']
   \<and> dumpArray_calls toStr s (Arr []) = [s, ''NULL or EMPTY'']
   \<and> dumpArray_calls toStr s (Arr (x # xs)) = s # map (\<lambda>val. ''    '' @ toStr val) (x # xs)
   \<and> length (dumpArray_calls toStr s (Arr (x # xs))) = 1 + length (x # xs)"
proof -
  have "dumpArray record_debug toStr [] s a = dumpArray_calls toStr s a"
    by (simp only: dumpArray_foldl foldl_record_debug append_Nil)
  then show ?thesis
    by (simp add: dumpArray_foldl) (simp add: dumpArray_calls_def)
qed

theorem dumpArray_example:
  "dumpArray record_debug int_to_string [] ''values'' (Arr [3, 14]) = [''values'', ''    3'', ''    14'']
   \<and> dumpArray record_debug int_to_string [] ''values'' ArrNull = [''values'', ''NULL or EMPTY'']"
  using dumpArray_debug_calls [of record_debug int_to_string "[]" "''values''" "Arr [3, 14]" 3 "[14]"]
    dumpArray_debug_calls [of record_debug int_to_string "[]" "''values''" ArrNull 3 "[14]"]
  by (simp add: dumpArray_calls_def int_to_string_def digit_char_def record_debug_def)

section \<open>The formatted line\<close>

lemma nat_to_string_nonempty: "nat_to_string n \<noteq> []"
  by (subst nat_to_string.simps) simp

lemma to_string_truthy_nonempty: "truthy v \<Longrightarrow> to_string v \<noteq> []"
  by (cases v) (simp_all add: int_to_string_def nat_to_string_nonempty)

lemma join_with_cons:
  "join_with sep (x # xs) = (if xs = [] then x else x @ sep @ join_with sep xs)"
  by (cases xs) simp_all

lemma append_fold:
  "prefix (foldl MessagePrefixBuilder_append b vs) =
     (if prefix b = [] then join_with '':'' (truthy_parts vs)
      else join_with '':'' (prefix b # truthy_parts vs))"
proof (induction vs arbitrary: b)
  case Nil
  then show ?case by (simp add: truthy_parts_def)
next
  case (Cons v vs)
  show ?case
  proof (cases "truthy v")
    case False
    then show ?thesis using Cons.IH [of b]
      by (simp add: MessagePrefixBuilder_append_def truthy_parts_def)
  next
    case True
    then have ne: "to_string v \<noteq> []" by (rule to_string_truthy_nonempty)
    show ?thesis using True ne Cons.IH [of "MessagePrefixBuilder_append b v"]
      by (simp add: MessagePrefixBuilder_append_def truthy_parts_def join_with_cons Let_def)
  qed
qed

text \<open>
  Claim C8, as amended. The line is the time, the upper-cased level, the prefix and the
  message, separated by single spaces, and the prefix joins with a colon the renderings
  of the truthy values among appName, pid, contextName, contextId and moduleName, in that
  order. A value is skipped, with no separator, when it is falsy: an absent field, an
  empty text, and also the number 0 for pid and contextId.
\<close>

theorem prefix_joins_truthy_values:
  "buildFormatMessage now level message meta =
     now @ '' '' @ getLevelString level @ '' '' @ join_with '':'' (truthy_parts (prefix_values meta))
       @ '' '' @ message
   \<and> truthy (str_field f) = (case f of None \<Rightarrow> False | Some s \<Rightarrow> s \<noteq> [])
   \<and> truthy (num_field g) = (case g of None \<Rightarrow> False | Some n \<Rightarrow> n \<noteq> 0)
   \<and> getLevelString ''debug'' = ''DEBUG''
   \<and> getLevelString ''warn'' = ''WARN''
   \<and> getLevelString ''error'' = ''ERROR''"
proof -
  have "prefix (foldl MessagePrefixBuilder_append MessagePrefixBuilder_new (prefix_values meta))
          = join_with '':'' (truthy_parts (prefix_values meta))"
    by (simp only: append_fold) (simp add: MessagePrefixBuilder_new_def)
  then have "buildFormatMessage now level message meta =
     now @ '' '' @ getLevelString level @ '' '' @ join_with '':'' (truthy_parts (prefix_values meta))
       @ '' '' @ message"
    by (simp add: buildFormatMessage_def prefix_values_def MessagePrefixBuilder_done_def Let_def)
  then show ?thesis
    by (simp add: str_field_def num_field_def getLevelString_def upper_char_def split: option.splits)
qed

text \<open>An example of the amended claim: all five values truthy, then only two.\<close>

theorem prefix_joins_truthy_values_witness:
  "buildFormatMessage ''12:00:00:000'' ''error'' ''hello''
     \<lparr>meta_appName = Some ''app'', meta_pid = Some 4242, meta_moduleName = Some ''db'',
      meta_contextName = Some ''ctx'', meta_contextId = Some 17\<rparr>
     = ''12:00:00:000 ERROR app:4242:ctx:17:db hello''
   \<and> buildFormatMessage ''12:00:00:000'' ''debug'' ''hello''
     \<lparr>meta_appName = Some '''', meta_pid = Some 4242, meta_moduleName = Some ''db'',
      meta_contextName = None, meta_contextId = None\<rparr>
     = ''12:00:00:000 DEBUG 4242:db hello''"
  using prefix_joins_truthy_values [of "''12:00:00:000''" "''error''" "''hello''"
      "\<lparr>meta_appName = Some ''app'', meta_pid = Some 4242, meta_moduleName = Some ''db'',
        meta_contextName = Some ''ctx'', meta_contextId = Some 17\<rparr>" None None]
    prefix_joins_truthy_values [of "''12:00:00:000''" "''debug''" "''hello''"
      "\<lparr>meta_appName = Some '''', meta_pid = Some 4242, meta_moduleName = Some ''db'',
        meta_contextName = None, meta_contextId = None\<rparr>" None None]
  by (simp add: truthy_parts_def prefix_values_def str_field_def num_field_def int_to_string_def
      digit_char_def getLevelString_def upper_char_def)

text \<open>
  Claim C8 as stated fails for a context id of 0: it is a value that is present and not
  empty, so the claim puts its rendering into the prefix (\<open>spec_line\<close>), and the builder
  drops it.
\<close>

theorem prefix_skips_zero_counterexample:
  "buildFormatMessage ''12:00:00:000'' ''warn'' ''hello''
     \<lparr>meta_appName = Some ''app'', meta_pid = Some 4242, meta_moduleName = Some ''db'',
      meta_contextName = Some ''ctx'', meta_contextId = Some 0\<rparr>
     = ''12:00:00:000 WARN app:4242:ctx:db hello''
   \<and> spec_line ''12:00:00:000'' ''warn'' ''hello''
     \<lparr>meta_appName = Some ''app'', meta_pid = Some 4242, meta_moduleName = Some ''db'',
      meta_contextName = Some ''ctx'', meta_contextId = Some 0\<rparr>
     = ''12:00:00:000 WARN app:4242:ctx:0:db hello''
   \<and> buildFormatMessage ''12:00:00:000'' ''warn'' ''hello''
     \<lparr>meta_appName = Some ''app'', meta_pid = Some 4242, meta_moduleName = Some ''db'',
      meta_contextName = Some ''ctx'', meta_contextId = Some 0\<rparr>
     \<noteq> spec_line ''12:00:00:000'' ''warn'' ''hello''
     \<lparr>meta_appName = Some ''app'', meta_pid = Some 4242, meta_moduleName = Some ''db'',
      meta_contextName = Some ''ctx'', meta_contextId = Some 0\<rparr>"
  by (simp add: buildFormatMessage_def spec_line_def spec_prefix_def prefix_values_def present_nonempty_def
      MessagePrefixBuilder_append_def MessagePrefixBuilder_new_def MessagePrefixBuilder_done_def
      str_field_def num_field_def getLevelString_def upper_char_def int_to_string_def digit_char_def Let_def)

section \<open>Filtering in \<^verbatim>\<open>LoggerService.log\<close>\<close>

lemma filtered_out_authoritative:
  "filtered_out this m =
     authoritative_dropped (prop_list (options_field (options this) disabled))
       (prop_list (options_field (options this) enabled)) m"
proof -
  obtain d where d: "options_field (options this) disabled = d" by simp
  obtain e where e: "options_field (options this) enabled = e" by simp
  show ?thesis unfolding filtered_out_def Let_def d e authoritative_dropped_def
    by (cases d; cases e) simp_all
qed

text \<open>
  The two readings of the filter differ exactly when both lists are set and neither
  contains the module name.
\<close>

lemma spec_dropped_differs:
  "(spec_dropped dis en m \<noteq> authoritative_dropped dis en m) =
     (case (dis, en) of (Some d, Some e) \<Rightarrow> m \<notin> set d \<and> m \<notin> set e | _ \<Rightarrow> False)"
  by (cases dis; cases en) (auto simp: spec_dropped_def authoritative_dropped_def)

lemma unfiltered_log:
  assumes "meta_moduleName meta = Some m" and "m \<noteq> [] \<longrightarrow> \<not> filtered_out this m"
  shows "LoggerService_log p this level message meta =
           Some \<lparr>sc_sink = logMethod this, sc_level = level, sc_message = message,
                  sc_meta = stamped p this meta\<rparr>"
  using assms by (auto simp: LoggerService_log_def str_field_def stamped_def Let_def)

text \<open>
  Claim C3, as amended. A call of \<^verbatim>\<open>LoggerService.log\<close> whose metadata carries a module
  name \<open>m\<close> (the test is \<^verbatim>\<open>if(moduleName)\<close>, so \<open>m\<close> is not the empty text). A list is
  set when the options object exists and the property holds an array. The call emits
  nothing when the disabled list is set and contains \<open>m\<close>; it emits nothing when the
  disabled list is not set, the enabled list is set and does not contain \<open>m\<close>; when the
  disabled list is set the enabled list is not consulted (\<open>authoritative_dropped\<close>). In
  every other case the emit function is called once, with the level, the message and the
  metadata stamped with the application name and the process id.
\<close>

theorem LoggerService_log_filter:
  assumes "meta_moduleName meta = Some m" and "m \<noteq> []"
  shows "LoggerService_log p this level message meta =
     (if authoritative_dropped (prop_list (options_field (options this) disabled))
           (prop_list (options_field (options this) enabled)) m
      then None
      else Some \<lparr>sc_sink = logMethod this, sc_level = level, sc_message = message,
                 sc_meta = stamped p this meta\<rparr>)"
  using assms
  by (simp add: LoggerService_log_def filtered_out_authoritative [symmetric] str_field_def stamped_def
      Let_def)

theorem LoggerService_log_filter_witness:
  "LoggerService_log 4242 (svc_ex (Val [''db'']) (Val [''db'', ''api''])) ''debug'' ''x'' (module_meta ''db'') = None
   \<and> LoggerService_log 4242 (svc_ex Null (Val [''api''])) ''debug'' ''x'' (module_meta ''db'') = None
   \<and> LoggerService_log 4242 (svc_ex (Val [''db'']) (Val [''api''])) ''debug'' ''x'' (module_meta ''ui'')
       = Some \<lparr>sc_sink = 7, sc_level = ''debug'', sc_message = ''x'',
               sc_meta = \<lparr>meta_appName = Some ''app'', meta_pid = Some 4242, meta_moduleName = Some ''ui'',
                          meta_contextName = None, meta_contextId = None\<rparr>\<rparr>
   \<and> LoggerService_log 4242 (svc_ex Null Null) ''debug'' ''x'' (module_meta ''db'')
       = Some \<lparr>sc_sink = 7, sc_level = ''debug'', sc_message = ''x'',
               sc_meta = \<lparr>meta_appName = Some ''app'', meta_pid = Some 4242, meta_moduleName = Some ''db'',
                          meta_contextName = None, meta_contextId = None\<rparr>\<rparr>"
  using LoggerService_log_filter [of "module_meta ''db''" "''db''" 4242 "svc_ex (Val [''db'']) (Val [''db'', ''api''])" "''debug''" "''x''"]
    LoggerService_log_filter [of "module_meta ''db''" "''db''" 4242 "svc_ex Null (Val [''api''])" "''debug''" "''x''"]
    LoggerService_log_filter [of "module_meta ''ui''" "''ui''" 4242 "svc_ex (Val [''db'']) (Val [''api''])" "''debug''" "''x''"]
    LoggerService_log_filter [of "module_meta ''db''" "''db''" 4242 "svc_ex Null Null" "''debug''" "''x''"]
  by (simp add: svc_ex_def module_meta_def authoritative_dropped_def options_field_def stamped_def str_field_def)

text \<open>
  Claim C3 as stated fails when both lists are set and neither contains the module
  name: with the disabled list \<^verbatim>\<open>['db']\<close>, the enabled list \<^verbatim>\<open>['api']\<close> and the module
  \<^verbatim>\<open>'ui'\<close>, the claim's second clause drops the message (\<open>spec_dropped\<close>), and
  \<^verbatim>\<open>LoggerService.log\<close> skips the enabled list under \<^verbatim>\<open>if (!disabled && enabled)\<close> and
  calls the emit function.
\<close>

theorem enabled_list_ignored_counterexample:
  "spec_dropped
     (prop_list (options_field (options (svc_ex (Val [''db'']) (Val [''api'']))) disabled))
     (prop_list (options_field (options (svc_ex (Val [''db'']) (Val [''api'']))) enabled)) ''ui''
   \<and> meta_moduleName (module_meta ''ui'') = Some ''ui''
   \<and> LoggerService_log 4242 (svc_ex (Val [''db'']) (Val [''api''])) ''debug'' ''x'' (module_meta ''ui'')
       = Some \<lparr>sc_sink = 7, sc_level = ''debug'', sc_message = ''x'',
               sc_meta = \<lparr>meta_appName = Some ''app'', meta_pid = Some 4242, meta_moduleName = Some ''ui'',
                          meta_contextName = None, meta_contextId = None\<rparr>\<rparr>
   \<and> LoggerService_log 4242 (svc_ex (Val [''db'']) (Val [''api''])) ''debug'' ''x'' (module_meta ''ui'')
       \<noteq> None"
  by (simp add: spec_dropped_def svc_ex_def module_meta_def options_field_def LoggerService_log_def
      filtered_out_def str_field_def Let_def)

section \<open>What every call keeps\<close>

lemma service_at_simps [simp]:
  "service_at w (JService a) = (if a < length (services w) then Some (a, services w ! a) else None)"
  "service_at w JUndefined = None" "service_at w JNull = None" "service_at w (JBool b) = None"
  "service_at w (JNum n) = None" "service_at w JNaN = None" "service_at w (JStr t) = None"
  "service_at w (JHandle a) = None" "service_at w (JObject a) = None"
  by (simp_all add: service_at_def)

lemma handle_at_simps [simp]:
  "handle_at w (JHandle a) = (if a < length (handles w) then Some (a, handles w ! a) else None)"
  "handle_at w JUndefined = None" "handle_at w JNull = None" "handle_at w (JBool b) = None"
  "handle_at w (JNum n) = None" "handle_at w JNaN = None" "handle_at w (JStr t) = None"
  "handle_at w (JService a) = None" "handle_at w (JObject a) = None"
  by (simp_all add: handle_at_def)

lemma service_at_Some: "service_at w v = Some (a, r) \<longleftrightarrow> v = JService a \<and> a < length (services w) \<and> r = services w ! a"
  by (cases v) auto

lemma handle_at_Some: "handle_at w v = Some (a, r) \<longleftrightarrow> v = JHandle a \<and> a < length (handles w) \<and> r = handles w ! a"
  by (cases v) auto

lemma frame_refl: "frame w w" by (simp add: frame_def)

lemma handles_kept_refl: "handles_kept w w" by (simp add: handles_kept_def)

lemma attach_frame:
  assumes "attachToLoggerService w x = Inr w'"
  shows "frame w w' \<and> handles_kept w w' \<and> services w' = services w \<and> registry w' = registry w
         \<and> guards w' = guards w \<and> sink_calls w' = sink_calls w \<and> log_calls w' = log_calls w"
  using assms
  by (auto simp: attachToLoggerService_def Let_def frame_def handles_kept_def nth_list_update nth_append
      handle_at_Some service_at_Some
      split: if_splits option.splits prod.splits)

lemma call_log_frame:
  assumes "call_log e w t l m meta = Inr w'"
  shows "services w' = services w \<and> handles w' = handles w \<and> loggers w' = loggers w
         \<and> guards w' = guards w \<and> registry w' = registry w"
  using assms
  by (auto simp: call_log_def Let_def split: option.splits prod.splits)

lemma ensureInit_frame:
  assumes "ensureInit w x = Inr w'"
  shows "frame w w' \<and> handles_kept w w' \<and> services w' = services w \<and> registry w' = registry w
         \<and> guards w' = guards w \<and> sink_calls w' = sink_calls w \<and> log_calls w' = log_calls w"
proof (cases "x < length (loggers w) \<and> ml_handle (loggers w ! x) = None")
  case True
  with assms have "attachToLoggerService w x = Inr w'" by (simp add: ensureInit_def)
  then show ?thesis by (rule attach_frame)
next
  case False
  with assms have "w' = w" by (auto simp: ensureInit_def split: if_splits)
  then show ?thesis by (simp add: frame_refl handles_kept_refl)
qed

lemma ModuleLogger_log_frame:
  assumes "ModuleLogger_log e w x level args = Inr w'"
  shows "frame w w' \<and> handles_kept w w' \<and> services w' = services w \<and> registry w' = registry w
         \<and> guards w' = guards w"
proof -
  from assms obtain w1 where w1: "ensureInit w x = Inr w1"
    by (auto simp: ModuleLogger_log_def split: sum.splits)
  note f1 = ensureInit_frame [OF w1]
  from assms w1 have "w' = w1 \<or> (\<exists>t m. call_log e w1 t level (util_format e args) m = Inr w')"
    by (auto simp: ModuleLogger_log_def Let_def split: if_splits option.splits prod.splits)
  then have "services w' = services w1 \<and> handles w' = handles w1 \<and> loggers w' = loggers w1
         \<and> guards w' = guards w1 \<and> registry w' = registry w1"
    using call_log_frame by blast
  with f1 show ?thesis by (simp add: frame_def handles_kept_def)
qed

lemma registerLogger_frame:
  assumes "registerLogger w lg = Inr w'"
  shows "frame w w' \<and> loggers w' = loggers w \<and> services w' = services w \<and> guards w' = guards w"
  using assms
  by (auto simp: registerLogger_def registerService_def Let_def frame_def handle_at_Some
      split: if_splits option.splits prod.splits sum.splits)

lemma call_configure_frame:
  assumes "call_configure w t opts = Inr w'"
  shows "frame w w' \<and> handles w' = handles w \<and> loggers w' = loggers w \<and> guards w' = guards w
         \<and> registry w' = registry w \<and> length (services w') = length (services w)"
  using assms
  by (auto simp: call_configure_def frame_def split: option.splits prod.splits)

lemma call_disable_frame:
  assumes "call_disable w t ms = Inr w'"
  shows "frame w w' \<and> handles w' = handles w \<and> loggers w' = loggers w \<and> guards w' = guards w
         \<and> registry w' = registry w \<and> length (services w') = length (services w)"
  using assms
  by (auto simp: call_disable_def frame_def split: option.splits prod.splits)

lemma guard_new_frame:
  assumes "LoggerConfigGuard_new w opts = Inr (g, w')"
  shows "frame w w' \<and> handles w' = handles w \<and> loggers w' = loggers w
         \<and> registry w' = registry w \<and> length (services w') = length (services w)"
  using assms
  by (auto simp: LoggerConfigGuard_new_def frame_def Let_def nth_append
      split: if_splits option.splits prod.splits sum.splits)

lemma dispose_frame:
  assumes "LoggerConfigGuard_dispose w g = Inr w'"
  shows "frame w w' \<and> handles w' = handles w \<and> loggers w' = loggers w \<and> guards w' = guards w
         \<and> registry w' = registry w \<and> length (services w') = length (services w)"
proof (cases "g < length (guards w) \<and> truthy (guard_logger (guards w ! g))")
  case True
  with assms have "call_configure w (guard_logger (guards w ! g)) (originalOptions (guards w ! g)) = Inr w'"
    by (simp add: LoggerConfigGuard_dispose_def Let_def)
  then show ?thesis by (rule call_configure_frame)
next
  case False
  with assms have "w' = w" by (auto simp: LoggerConfigGuard_dispose_def Let_def split: if_splits)
  then show ?thesis by (simp add: frame_refl)
qed

lemma step_frame:
  assumes "step e w c = Inr w'"
  shows "frame w w' \<and> (\<not> is_register c \<longrightarrow> handles_kept w w')"
proof (cases c)
  case (NewLoggerService app emit)
  with assms show ?thesis by (auto simp: step_def frame_def handles_kept_def)
next
  case (RegisterLogger s)
  with assms show ?thesis by (auto simp: step_def split: if_splits dest: registerLogger_frame)
next
  case (RegisterLegacy s)
  with assms show ?thesis
    by (auto simp: step_def registerService_def frame_def handles_kept_def split: if_splits)
next
  case (CreateLogger nm)
  with assms show ?thesis by (auto simp: step_def createLogger_def frame_def handles_kept_def nth_append)
next
  case (Debug x args)
  with assms show ?thesis by (auto simp: step_def ModuleLogger_debug_def dest: ModuleLogger_log_frame)
next
  case (Warn x args)
  with assms show ?thesis by (auto simp: step_def ModuleLogger_warn_def dest: ModuleLogger_log_frame)
next
  case (ErrorCall x args)
  with assms show ?thesis by (auto simp: step_def ModuleLogger_error_def dest: ModuleLogger_log_frame)
next
  case (Configure s opts)
  with assms show ?thesis by (auto simp: step_def handles_kept_def dest: call_configure_frame)
next
  case (Disable s ms)
  with assms show ?thesis by (auto simp: step_def handles_kept_def dest: call_disable_frame)
next
  case (ServiceLog s level message meta)
  with assms have "call_log e w (JService s) level message meta = Inr w'" by (simp add: step_def)
  from call_log_frame [OF this] show ?thesis by (simp add: frame_def handles_kept_def)
next
  case (NewGuard opts)
  with assms obtain g where "LoggerConfigGuard_new w opts = Inr (g, w')"
    by (cases "LoggerConfigGuard_new w opts") (auto simp: step_def)
  from guard_new_frame [OF this] show ?thesis by (simp add: handles_kept_def)
next
  case (Dispose g)
  with assms have "LoggerConfigGuard_dispose w g = Inr w'" by (simp add: step_def)
  from dispose_frame [OF this] show ?thesis by (simp add: handles_kept_def)
qed

lemma apply_op_frame: "frame w (apply_op e w c) \<and> (\<not> is_register c \<longrightarrow> handles_kept w (apply_op e w c))"
  by (cases "step e w c") (auto simp: apply_op_def frame_refl handles_kept_refl dest: step_frame)

section \<open>Typed states stay typed\<close>

lemma service_at_is_svc: "(service_at w v \<noteq> None) = is_svc (length (services w)) v"
  by (cases v) (auto simp: is_svc_def)

lemma handle_at_is_hdl: "(handle_at w v \<noteq> None) = is_hdl (length (handles w)) v"
  by (cases v) (auto simp: is_hdl_def)

lemma wf_alt:
  "wf w \<longleftrightarrow>
     (truthy (tryResolveService (registry w) (Tok LOGGER_HANDLE)) \<longrightarrow>
        is_hdl (length (handles w)) (tryResolveService (registry w) (Tok LOGGER_HANDLE))) \<and>
     (truthy (tryResolveService (registry w) (Tok LOGGER)) \<longrightarrow>
        is_svc (length (services w)) (tryResolveService (registry w) (Tok LOGGER))) \<and>
     (\<forall>h < length (handles w). is_svc (length (services w)) (logger (handles w ! h))) \<and>
     (\<forall>x < length (loggers w). \<forall>h. ml_handle (loggers w ! x) = Some h \<longrightarrow> h < length (handles w)) \<and>
     (\<forall>g < length (guards w). truthy (guard_logger (guards w ! g)) \<longrightarrow>
        is_svc (length (services w)) (guard_logger (guards w ! g)))"
  unfolding wf_def falsy_or_handle_def falsy_or_service_def handle_field_ok_def logger_ref_ok_def
    service_at_is_svc handle_at_is_hdl list_all_length
  by (auto split: option.splits)

lemma token_neq [simp]: "LOGGER_HANDLE \<noteq> LOGGER" "LOGGER \<noteq> LOGGER_HANDLE"
  by (simp_all add: LOGGER_def LOGGER_HANDLE_def)

lemma wf_attach:
  assumes "wf w" and "attachToLoggerService w x = Inr w'"
  shows "wf w'"
  using assms unfolding wf_alt
  by (auto simp: attachToLoggerService_def Let_def nth_list_update nth_append
      handle_at_Some service_at_Some is_svc_def is_hdl_def
      split: if_splits option.splits prod.splits)

lemma wf_log_fields:
  assumes "wf w" and "services w' = services w" "handles w' = handles w" "loggers w' = loggers w"
    "guards w' = guards w" "registry w' = registry w"
  shows "wf w'"
  using assms unfolding wf_alt by simp

lemma wf_call_log: "wf w \<Longrightarrow> call_log e w t l m meta = Inr w' \<Longrightarrow> wf w'"
  using call_log_frame wf_log_fields by blast

lemma wf_ModuleLogger_log:
  assumes "wf w" and "ModuleLogger_log e w x level args = Inr w'"
  shows "wf w'"
proof -
  from assms obtain w1 where w1: "ensureInit w x = Inr w1"
    by (auto simp: ModuleLogger_log_def split: sum.splits)
  have "wf w1"
  proof (cases "x < length (loggers w) \<and> ml_handle (loggers w ! x) = None")
    case True
    with w1 have "attachToLoggerService w x = Inr w1" by (simp add: ensureInit_def)
    with assms(1) show ?thesis by (rule wf_attach)
  next
    case False
    with w1 have "w1 = w" by (auto simp: ensureInit_def split: if_splits)
    with assms(1) show ?thesis by simp
  qed
  moreover from assms w1 have "w' = w1 \<or> (\<exists>t m. call_log e w1 t level (util_format e args) m = Inr w')"
    by (auto simp: ModuleLogger_log_def Let_def split: if_splits option.splits prod.splits)
  ultimately show ?thesis using wf_call_log by blast
qed

lemma wf_registerLogger:
  assumes "wf w" and "s < length (services w)" and "registerLogger w (JService s) = Inr w'"
  shows "wf w'"
  using assms unfolding wf_alt
  by (auto simp: registerLogger_def registerService_def tryResolveService_def Let_def nth_list_update nth_append
      handle_at_Some is_svc_def is_hdl_def
      split: if_splits option.splits prod.splits sum.splits)

lemma wf_same_shape:
  assumes "wf w" and "length (services w') = length (services w)" "handles w' = handles w"
    "loggers w' = loggers w" "guards w' = guards w" "registry w' = registry w"
  shows "wf w'"
  using assms unfolding wf_alt by simp

lemma wf_guard_new:
  assumes "wf w" and "LoggerConfigGuard_new w opts = Inr (g, w')"
  shows "wf w'"
  using assms unfolding wf_alt
  by (auto simp: LoggerConfigGuard_new_def resolveService_def Let_def nth_append service_at_Some is_svc_def
      split: if_splits option.splits prod.splits sum.splits token_arg.splits)

lemma wf_step:
  assumes "wf w" and "step e w c = Inr w'"
  shows "wf w'"
proof (cases c)
  case (NewLoggerService app emit)
  with assms show ?thesis unfolding wf_alt by (auto simp: step_def is_svc_def intro: less_SucI)
next
  case (RegisterLogger s)
  with assms show ?thesis by (auto simp: step_def split: if_splits intro: wf_registerLogger)
next
  case (RegisterLegacy s)
  with assms show ?thesis unfolding wf_alt
    by (auto simp: step_def registerService_def tryResolveService_def is_svc_def split: if_splits)
next
  case (CreateLogger nm)
  with assms show ?thesis unfolding wf_alt
    by (auto simp: step_def createLogger_def nth_append less_Suc_eq split: if_splits)
next
  case (Debug x args)
  with assms show ?thesis by (auto simp: step_def ModuleLogger_debug_def intro: wf_ModuleLogger_log)
next
  case (Warn x args)
  with assms show ?thesis by (auto simp: step_def ModuleLogger_warn_def intro: wf_ModuleLogger_log)
next
  case (ErrorCall x args)
  with assms show ?thesis by (auto simp: step_def ModuleLogger_error_def intro: wf_ModuleLogger_log)
next
  case (Configure s opts)
  with assms have "call_configure w (JService s) opts = Inr w'" by (simp add: step_def)
  from call_configure_frame [OF this] assms(1) show ?thesis by (simp add: wf_same_shape)
next
  case (Disable s ms)
  with assms have "call_disable w (JService s) ms = Inr w'" by (simp add: step_def)
  from call_disable_frame [OF this] assms(1) show ?thesis by (simp add: wf_same_shape)
next
  case (ServiceLog s level message meta)
  with assms show ?thesis by (auto simp: step_def intro: wf_call_log)
next
  case (NewGuard opts)
  with assms obtain g where "LoggerConfigGuard_new w opts = Inr (g, w')"
    by (cases "LoggerConfigGuard_new w opts") (auto simp: step_def)
  with assms(1) show ?thesis by (rule wf_guard_new)
next
  case (Dispose g)
  with assms have "LoggerConfigGuard_dispose w g = Inr w'" by (simp add: step_def)
  from dispose_frame [OF this] assms(1) show ?thesis by (simp add: wf_same_shape)
qed

lemma wf_apply_op: "wf w \<Longrightarrow> wf (apply_op e w c)"
  by (cases "step e w c") (auto simp: apply_op_def dest: wf_step)

lemma wf_run: "wf w \<Longrightarrow> wf (run e w cs)"
  unfolding run_def by (induction cs arbitrary: w) (simp_all add: wf_apply_op)

lemma wf_init: "wf init"
  by (simp add: wf_def init_def falsy_or_handle_def falsy_or_service_def tryResolveService_def)

text \<open>Every state the calls reach from the initial state is typed.\<close>

lemma reachable_wf: "wf (run e init cs)"
  by (rule wf_run) (rule wf_init)

section \<open>Module loggers and the handle\<close>

lemmas eval_defs =
  run_def apply_op_def step_def registerLogger_def registerService_def tryResolveService_def
  resolveService_def createLogger_def ModuleLogger_debug_def ModuleLogger_warn_def ModuleLogger_error_def
  ModuleLogger_log_def ensureInit_def attachToLoggerService_def call_log_def call_configure_def call_disable_def
  LoggerService_log_def LoggerService_new_def LoggerService_isDisabled_def LoggerService_disable_def
  LoggerService_configure_def filtered_out_def options_field_def module_meta_def str_field_def
  LoggerConfigGuard_new_def LoggerConfigGuard_dispose_def
  init_def env0_def plain_format_def LOGGER_def LOGGER_HANDLE_def Let_def


lemma world_bound_eq:
  "world_bound =
     \<lparr>registry = [Tok LOGGER_HANDLE \<mapsto> JHandle 0, Tok LOGGER \<mapsto> JService 0],
      services = [LoggerService_new 0 (Some ''app'') 7, LoggerService_new 1 (Some ''app'') 8],
      handles = [\<lparr>logger = JService 0\<rparr>],
      loggers = [\<lparr>ml_name = ''svc'', ml_handle = Some 0, ml_disabled = False\<rparr>,
                 \<lparr>ml_name = ''svc'', ml_handle = None, ml_disabled = False\<rparr>],
      guards = [], next_id = 2,
      sink_calls = [\<lparr>sc_sink = 7, sc_level = ''debug'', sc_message = ''one'',
                     sc_meta = \<lparr>meta_appName = Some ''app'', meta_pid = Some 4242,
                                meta_moduleName = Some ''svc'', meta_contextName = None,
                                meta_contextId = None\<rparr>\<rparr>],
      log_calls = [(0, ''debug'', ''one'', module_meta ''svc'')]\<rparr>"
  by (simp add: world_bound_def eval_defs)







lemma bound_apply_op:
  assumes "x < length (loggers w)" and "ml_handle (loggers w ! x) = Some h" and "h < length (handles w)"
    and "s < length (services w)" and "\<not> is_register c"
  shows "x < length (loggers (apply_op e w c)) \<and> loggers (apply_op e w c) ! x = loggers w ! x
         \<and> h < length (handles (apply_op e w c)) \<and> handles (apply_op e w c) ! h = handles w ! h
         \<and> s < length (services (apply_op e w c))"
  using apply_op_frame [of w e c] assms by (auto simp: frame_def handles_kept_def)

lemma bound_run:
  assumes "x < length (loggers w)" and "ml_handle (loggers w ! x) = Some h" and "h < length (handles w)"
    and "s < length (services w)" and "no_register cs"
  shows "x < length (loggers (run e w cs)) \<and> loggers (run e w cs) ! x = loggers w ! x
         \<and> h < length (handles (run e w cs)) \<and> handles (run e w cs) ! h = handles w ! h
         \<and> s < length (services (run e w cs))"
  using assms unfolding run_def no_register_def
proof (induction cs arbitrary: w)
  case Nil
  then show ?case by simp
next
  case (Cons c cs)
  from Cons.prems have c: "\<not> is_register c" and cs: "list_all (\<lambda>c. \<not> is_register c) cs" by simp_all
  note one = bound_apply_op [OF Cons.prems(1-4) c, of e]
  from one Cons.prems(2) have h': "ml_handle (loggers (apply_op e w c) ! x) = Some h" by simp
  from Cons.IH [of "apply_op e w c"] one h' cs show ?case by simp
qed

lemma bound_dispatch:
  assumes "x < length (loggers w)" and "ml_handle (loggers w ! x) = Some h"
    and "\<not> ml_disabled (loggers w ! x)" and "h < length (handles w)"
  shows "ModuleLogger_log e w x level args =
           call_log e w (logger (handles w ! h)) level (util_format e args) (module_meta (ml_name (loggers w ! x)))"
  using assms by (simp add: ModuleLogger_log_def ensureInit_def Let_def)

lemma call_log_entered:
  assumes "s < length (services w)"
  shows "log_calls_of (call_log e w (JService s) level message meta) = Some (log_calls w @ [(s, level, message, meta)])"
  using assms by (simp add: call_log_def log_calls_of_def Let_def split: option.splits)

lemma registerLogger_keeps_handle:
  assumes "tryResolveService (registry w) (Tok LOGGER_HANDLE) = JHandle h"
    and "registerLogger w lg = Inr w'"
  shows "tryResolveService (registry w') (Tok LOGGER_HANDLE) = JHandle h"
  using assms
  by (auto simp: registerLogger_def registerService_def tryResolveService_def Let_def
      split: if_splits option.splits prod.splits)

lemma step_keeps_handle:
  assumes "tryResolveService (registry w) (Tok LOGGER_HANDLE) = JHandle h" and "step e w c = Inr w'"
  shows "tryResolveService (registry w') (Tok LOGGER_HANDLE) = JHandle h"
proof (cases c)
  case (NewLoggerService app emit)
  with assms show ?thesis by (auto simp: step_def)
next
  case (RegisterLogger s)
  with assms show ?thesis by (auto simp: step_def split: if_splits dest: registerLogger_keeps_handle)
next
  case (RegisterLegacy s)
  with assms show ?thesis
    by (auto simp: step_def registerService_def tryResolveService_def split: if_splits)
next
  case (CreateLogger nm)
  with assms show ?thesis by (auto simp: step_def createLogger_def)
next
  case (Debug x args)
  with assms have "ModuleLogger_log e w x ''debug'' args = Inr w'"
    by (simp add: step_def ModuleLogger_debug_def)
  from ModuleLogger_log_frame [OF this] assms(1) show ?thesis by simp
next
  case (Warn x args)
  with assms have "ModuleLogger_log e w x ''warn'' args = Inr w'"
    by (simp add: step_def ModuleLogger_warn_def)
  from ModuleLogger_log_frame [OF this] assms(1) show ?thesis by simp
next
  case (ErrorCall x args)
  with assms have "ModuleLogger_log e w x ''error'' args = Inr w'"
    by (simp add: step_def ModuleLogger_error_def)
  from ModuleLogger_log_frame [OF this] assms(1) show ?thesis by simp
next
  case (Configure s opts)
  with assms have "call_configure w (JService s) opts = Inr w'" by (simp add: step_def)
  from call_configure_frame [OF this] assms(1) show ?thesis by simp
next
  case (Disable s ms)
  with assms have "call_disable w (JService s) ms = Inr w'" by (simp add: step_def)
  from call_disable_frame [OF this] assms(1) show ?thesis by simp
next
  case (ServiceLog s level message meta)
  with assms have "call_log e w (JService s) level message meta = Inr w'" by (simp add: step_def)
  from call_log_frame [OF this] assms(1) show ?thesis by simp
next
  case (NewGuard opts)
  with assms obtain g where "LoggerConfigGuard_new w opts = Inr (g, w')"
    by (cases "LoggerConfigGuard_new w opts") (auto simp: step_def)
  from guard_new_frame [OF this] assms(1) show ?thesis by simp
next
  case (Dispose g)
  with assms have "LoggerConfigGuard_dispose w g = Inr w'" by (simp add: step_def)
  from dispose_frame [OF this] assms(1) show ?thesis by simp
qed

lemma run_keeps_handle:
  assumes "tryResolveService (registry w) (Tok LOGGER_HANDLE) = JHandle h"
  shows "tryResolveService (registry (run e w cs)) (Tok LOGGER_HANDLE) = JHandle h"
  using assms unfolding run_def
proof (induction cs arbitrary: w)
  case Nil
  then show ?case by simp
next
  case (Cons c cs)
  have "tryResolveService (registry (apply_op e w c)) (Tok LOGGER_HANDLE) = JHandle h"
    using Cons.prems by (cases "step e w c") (auto simp: apply_op_def dest: step_keeps_handle)
  from Cons.IH [OF this] show ?case by simp
qed

text \<open>
  Claim C1. The registry holds the handle \<open>h\<close> under \<^verbatim>\<open>LOGGER_HANDLE\<close>, and \<open>x\<close> is any
  module logger bound to \<open>h\<close> and not disabled. \<^verbatim>\<open>registerLogger\<close> with a service \<open>s\<close>
  returns the state \<open>w1\<close>: the field of the handle \<open>h\<close> now holds \<open>s\<close>, the
  registry still holds \<open>h\<close> itself under \<^verbatim>\<open>LOGGER_HANDLE\<close>, and no module logger was
  written. Whatever calls follow, further \<^verbatim>\<open>registerLogger\<close> calls included, the registry
  goes on holding \<open>h\<close> under \<^verbatim>\<open>LOGGER_HANDLE\<close>. From then on, after any sequence of
  calls that has no further \<^verbatim>\<open>registerLogger\<close>, every \<^verbatim>\<open>debug\<close>, \<^verbatim>\<open>warn\<close> and
  \<^verbatim>\<open>error\<close> call on \<open>x\<close> is the call of \<^verbatim>\<open>log\<close> on the service \<open>s\<close> with the level
  of the method, the formatted message and the name of \<open>x\<close>: the record of entered
  \<^verbatim>\<open>log\<close> calls grows by exactly that call, on \<open>s\<close> and on no other service, and \<open>x\<close>
  is still the object it was.
\<close>

theorem registerLogger_rebinds:
  assumes "tryResolveService (registry w) (Tok LOGGER_HANDLE) = JHandle h" and "h < length (handles w)"
    and "x < length (loggers w)" and "ml_handle (loggers w ! x) = Some h"
    and "\<not> ml_disabled (loggers w ! x)" and "s < length (services w)"
    and "w1 = w\<lparr>handles := (handles w)[h := (handles w ! h)\<lparr>logger := JService s\<rparr>],
                 registry := (registry w)(Tok LOGGER \<mapsto> JService s)\<rparr>"
  shows "registerLogger w (JService s) = Inr w1
         \<and> tryResolveService (registry w1) (Tok LOGGER_HANDLE) = JHandle h
         \<and> loggers w1 = loggers w
         \<and> (\<forall>cs. tryResolveService (registry (run e w1 cs)) (Tok LOGGER_HANDLE) = JHandle h)
         \<and> (\<forall>cs args. no_register cs \<longrightarrow>
              list_all
                (\<lambda>(call, level).
                   call e (run e w1 cs) x args =
                     call_log e (run e w1 cs) (JService s) level (util_format e args)
                       (module_meta (ml_name (loggers w ! x)))
                   \<and> log_calls_of (call e (run e w1 cs) x args) =
                       Some (log_calls (run e w1 cs) @
                         [(s, level, util_format e args, module_meta (ml_name (loggers w ! x)))]))
                [(ModuleLogger_debug, ''debug''), (ModuleLogger_warn, ''warn''),
                 (ModuleLogger_error, ''error'')])
         \<and> (\<forall>cs level args. no_register cs \<longrightarrow>
              ModuleLogger_log e (run e w1 cs) x level args =
                call_log e (run e w1 cs) (JService s) level (util_format e args)
                  (module_meta (ml_name (loggers w ! x)))
              \<and> log_calls_of (ModuleLogger_log e (run e w1 cs) x level args) =
                  Some (log_calls (run e w1 cs) @
                    [(s, level, util_format e args, module_meta (ml_name (loggers w ! x)))])
              \<and> loggers (run e w1 cs) ! x = loggers w ! x)"
proof -
  have reg: "registerLogger w (JService s) = Inr w1"
    using assms(1,2,7) by (simp add: registerLogger_def registerService_def Let_def)
  have same: "tryResolveService (registry w1) (Tok LOGGER_HANDLE) = JHandle h"
    using assms(1,7) by (simp add: tryResolveService_def)
  have l1: "x < length (loggers w1)" "ml_handle (loggers w1 ! x) = Some h" "h < length (handles w1)"
    "s < length (services w1)" "loggers w1 ! x = loggers w ! x" "handles w1 ! h = \<lparr>logger = JService s\<rparr>"
    using assms(2-7) by simp_all
  have later: "ModuleLogger_log e (run e w1 cs) x level args =
                call_log e (run e w1 cs) (JService s) level (util_format e args)
                  (module_meta (ml_name (loggers w ! x)))
              \<and> log_calls_of (ModuleLogger_log e (run e w1 cs) x level args) =
                  Some (log_calls (run e w1 cs) @
                    [(s, level, util_format e args, module_meta (ml_name (loggers w ! x)))])
              \<and> loggers (run e w1 cs) ! x = loggers w ! x"
    if nr: "no_register cs" for cs level args
  proof -
    note b = bound_run [OF l1(1-4) nr, of e]
    from b l1(5,6) assms(4,5)
    have d: "ModuleLogger_log e (run e w1 cs) x level args =
               call_log e (run e w1 cs) (JService s) level (util_format e args)
                  (module_meta (ml_name (loggers w ! x)))"
      by (simp add: bound_dispatch [where h = h])
    from b have "s < length (services (run e w1 cs))" by simp
    from call_log_entered [OF this] d b l1(5) show ?thesis by simp
  qed
  have public: "list_all
                (\<lambda>(call, level).
                   call e (run e w1 cs) x args =
                     call_log e (run e w1 cs) (JService s) level (util_format e args)
                       (module_meta (ml_name (loggers w ! x)))
                   \<and> log_calls_of (call e (run e w1 cs) x args) =
                       Some (log_calls (run e w1 cs) @
                         [(s, level, util_format e args, module_meta (ml_name (loggers w ! x)))]))
                [(ModuleLogger_debug, ''debug''), (ModuleLogger_warn, ''warn''),
                 (ModuleLogger_error, ''error'')]"
    if nr: "no_register cs" for cs args
    unfolding list_all_Cons_iff list_all_Nil_iff prod.case ModuleLogger_debug_def
      ModuleLogger_warn_def ModuleLogger_error_def
    using later [OF nr, of "''debug''" args] later [OF nr, of "''warn''" args]
      later [OF nr, of "''error''" args]
    by blast
  have lw: "loggers w1 = loggers w" using assms(7) by simp
  note never = run_keeps_handle [OF same, of e]
  from reg same lw never public later show ?thesis by blast
qed

theorem registerLogger_rebinds_witness:
  "registerLogger world_bound (JService 1)
     = Inr (world_bound\<lparr>handles := [\<lparr>logger = JService 1\<rparr>],
                         registry := (registry world_bound)(Tok LOGGER \<mapsto> JService 1)\<rparr>)
   \<and> list_all
        (\<lambda>(call, level).
           log_calls_of
             (call env0
                (run env0 (world_bound\<lparr>handles := [\<lparr>logger = JService 1\<rparr>],
                                        registry := (registry world_bound)(Tok LOGGER \<mapsto> JService 1)\<rparr>)
                   [Disable 1 [''svc''], CreateLogger ''other'', RegisterLegacy 0])
                0 [JStr ''two''])
           = Some (log_calls
                    (run env0 (world_bound\<lparr>handles := [\<lparr>logger = JService 1\<rparr>],
                                            registry := (registry world_bound)(Tok LOGGER \<mapsto> JService 1)\<rparr>)
                       [Disable 1 [''svc''], CreateLogger ''other'', RegisterLegacy 0])
                   @ [(1, level, ''two'', module_meta ''svc'')]))
        [(ModuleLogger_debug, ''debug''), (ModuleLogger_warn, ''warn''), (ModuleLogger_error, ''error'')]"
proof -
  have h1: "tryResolveService (registry world_bound) (Tok LOGGER_HANDLE) = JHandle 0"
    by (simp add: world_bound_eq tryResolveService_def)
  have h2: "0 < length (handles world_bound)" by (simp add: world_bound_eq)
  have h3: "0 < length (loggers world_bound)" by (simp add: world_bound_eq)
  have h4: "ml_handle (loggers world_bound ! 0) = Some 0" by (simp add: world_bound_eq)
  have h5: "\<not> ml_disabled (loggers world_bound ! 0)" by (simp add: world_bound_eq)
  have h6: "1 < length (services world_bound)" by (simp add: world_bound_eq)
  have h7: "world_bound\<lparr>handles := [\<lparr>logger = JService 1\<rparr>],
                         registry := (registry world_bound)(Tok LOGGER \<mapsto> JService 1)\<rparr>
              = world_bound\<lparr>handles := (handles world_bound)
                    [0 := (handles world_bound ! 0)\<lparr>logger := JService 1\<rparr>],
                  registry := (registry world_bound)(Tok LOGGER \<mapsto> JService 1)\<rparr>"
    by (simp add: world_bound_eq)
  have nr: "no_register [Disable 1 [''svc''], CreateLogger ''other'', RegisterLegacy 0]"
    by (simp add: no_register_def)
  have nm: "ml_name (loggers world_bound ! 0) = ''svc''" by (simp add: world_bound_eq)
  have fm: "util_format env0 [JStr ''two''] = ''two''" by (simp add: env0_def plain_format_def)
  define W where
    "W = run env0 (world_bound\<lparr>handles := [\<lparr>logger = JService 1\<rparr>],
                                registry := (registry world_bound)(Tok LOGGER \<mapsto> JService 1)\<rparr>)
           [Disable 1 [''svc''], CreateLogger ''other'', RegisterLegacy 0]"
  note t = registerLogger_rebinds [OF h1 h2 h3 h4 h5 h6 h7, of env0]
  note r = t [THEN conjunct1]
  note pub = t [THEN conjunct2, THEN conjunct2, THEN conjunct2, THEN conjunct2, THEN conjunct1,
      rule_format, OF nr, of "[JStr ''two'']", folded W_def, unfolded nm fm]
  have "list_all
        (\<lambda>(call, level).
           log_calls_of (call env0 W 0 [JStr ''two''])
             = Some (log_calls W @ [(1, level, ''two'', module_meta ''svc'')]))
        [(ModuleLogger_debug, ''debug''), (ModuleLogger_warn, ''warn''), (ModuleLogger_error, ''error'')]"
    using pub unfolding list_all_Cons_iff list_all_Nil_iff prod.case by blast
  with r show ?thesis unfolding W_def by blast
qed

section \<open>The scoped configuration guard\<close>

text \<open>
  Claim C4 fails on the code: when \<^verbatim>\<open>LOGGER\<close> resolves to nothing truthy the constructor
  of \<^verbatim>\<open>LoggerConfigGuard\<close> calls \<^verbatim>\<open>resolveService\<close>, which throws, so no guard is
  made; \<^verbatim>\<open>disableLogger\<close> and \<^verbatim>\<open>disableLoggerBut\<close> throw the same error. The test
  \<^verbatim>\<open>if(this.logger)\<close> that follows in the constructor is never reached with a falsy
  logger.
\<close>

theorem guard_needs_backend:
  assumes "\<not> truthy (tryResolveService (registry w) (Tok LOGGER))"
  shows "LoggerConfigGuard_new w opts = Inl (Error ''Service with token LOGGER was not found'')
   \<and> disableLogger w nm = Inl (Error ''Service with token LOGGER was not found'')
   \<and> disableLoggerBut w names = Inl (Error ''Service with token LOGGER was not found'')"
  using assms
  by (simp add: LoggerConfigGuard_new_def disableLogger_def disableLoggerBut_def
      resolveService_def LOGGER_def)

theorem guard_needs_backend_witness:
  "LoggerConfigGuard_new init \<lparr>enabled = Absent, disabled = Val [''db''], verbose = Absent\<rparr>
     = Inl (Error ''Service with token LOGGER was not found'')
   \<and> disableLogger init ''db'' = Inl (Error ''Service with token LOGGER was not found'')
   \<and> disableLoggerBut init [''a'', ''b''] = Inl (Error ''Service with token LOGGER was not found'')"
proof -
  have "\<not> truthy (tryResolveService (registry init) (Tok LOGGER))"
    by (simp add: init_def tryResolveService_def)
  from guard_needs_backend [OF this] show ?thesis by blast
qed

lemma spread2_fields:
  "enabled (spread2 (map_option opt_fields saved) over) =
      (if enabled over = Absent then saved_field saved enabled else enabled over)"
  "disabled (spread2 (map_option opt_fields saved) over) =
      (if disabled over = Absent then saved_field saved disabled else disabled over)"
  "verbose (spread2 (map_option opt_fields saved) over) =
      (if verbose over = Absent then saved_field saved verbose else verbose over)"
  by (cases saved; cases "enabled over"; cases "disabled over"; cases "verbose over";
      simp add: spread2_def assign_props_def assign_prop_def no_props_def saved_field_def
        split: jsprop.splits)+

lemma guard_apply_op:
  assumes "g < length (guards w)" and "s < length (services w)"
  shows "g < length (guards (apply_op e w c)) \<and> guards (apply_op e w c) ! g = guards w ! g
         \<and> s < length (services (apply_op e w c))"
  using apply_op_frame [of w e c] assms by (auto simp: frame_def)

lemma guard_run:
  assumes "g < length (guards w)" and "s < length (services w)"
  shows "g < length (guards (run e w cs)) \<and> guards (run e w cs) ! g = guards w ! g
         \<and> s < length (services (run e w cs))"
  using assms unfolding run_def
proof (induction cs arbitrary: w)
  case Nil
  then show ?case by simp
next
  case (Cons c cs)
  note one = guard_apply_op [OF Cons.prems, of e c]
  from Cons.IH [of "apply_op e w c"] one show ?case by simp
qed

text \<open>
  Claim C5. A service \<open>s\<close> is registered under \<^verbatim>\<open>LOGGER\<close> and \<open>saved\<close> is the options
  object it holds. The constructor returns the new guard and the state \<open>w1\<close>, in which
  \<open>s\<close> holds a new options object \<open>merged\<close>: every property the overrides provide
  replaces the saved one, every property they leave out keeps its saved value. After any
  sequence of calls, \<^verbatim>\<open>configure\<close> on \<open>s\<close> included, \<^verbatim>\<open>dispose\<close> returns and puts
  \<open>saved\<close> itself, with its identity, back into \<open>s\<close>, and writes nothing else.
\<close>

theorem guard_merges_and_restores:
  assumes "tryResolveService (registry w) (Tok LOGGER) = JService s" and "s < length (services w)"
    and "saved = options (services w ! s)"
    and "merged = \<lparr>opt_id = next_id w, opt_fields = spread2 (map_option opt_fields saved) over\<rparr>"
    and "w1 = w\<lparr>services := (services w)[s := (services w ! s)\<lparr>options := Some merged\<rparr>],
                 guards := guards w @ [\<lparr>guard_options = over, guard_logger = JService s,
                                        originalOptions = saved\<rparr>],
                 next_id := Suc (next_id w)\<rparr>"
  shows "LoggerConfigGuard_new w over = Inr (length (guards w), w1)
         \<and> options (services w1 ! s) = Some merged
         \<and> enabled (opt_fields merged) =
             (if enabled over = Absent then saved_field saved enabled else enabled over)
         \<and> disabled (opt_fields merged) =
             (if disabled over = Absent then saved_field saved disabled else disabled over)
         \<and> verbose (opt_fields merged) =
             (if verbose over = Absent then saved_field saved verbose else verbose over)
         \<and> (\<forall>cs. LoggerConfigGuard_dispose (run e w1 cs) (length (guards w)) =
                    Inr ((run e w1 cs)\<lparr>services := (services (run e w1 cs))
                           [s := (services (run e w1 cs) ! s)\<lparr>options := saved\<rparr>]\<rparr>)
                  \<and> s < length (services (run e w1 cs)))"
proof -
  have new: "LoggerConfigGuard_new w over = Inr (length (guards w), w1)"
    using assms by (simp add: LoggerConfigGuard_new_def resolveService_def LoggerService_configure_def Let_def)
  have opt: "options (services w1 ! s) = Some merged" using assms(2,5) by simp
  have g1: "length (guards w) < length (guards w1)" "s < length (services w1)"
    "guards w1 ! length (guards w) = \<lparr>guard_options = over, guard_logger = JService s, originalOptions = saved\<rparr>"
    using assms(2,5) by simp_all
  have later: "LoggerConfigGuard_dispose (run e w1 cs) (length (guards w)) =
                    Inr ((run e w1 cs)\<lparr>services := (services (run e w1 cs))
                           [s := (services (run e w1 cs) ! s)\<lparr>options := saved\<rparr>]\<rparr>)
                  \<and> s < length (services (run e w1 cs))" for cs
    using guard_run [OF g1(1,2), of e cs] g1(3)
    by (simp add: LoggerConfigGuard_dispose_def call_configure_def LoggerService_configure_def Let_def)
  from new opt later spread2_fields [of saved over] assms(4) show ?thesis by simp
qed

theorem guard_merges_and_restores_witness:
  "(case disableLoggerBut world_bound [''a'', ''b''] of
      Inl err \<Rightarrow> False
    | Inr (g, w1) \<Rightarrow>
        g = 0 \<and>
        options (services w1 ! 0)
          = Some \<lparr>opt_id = 2, opt_fields = \<lparr>enabled = Val [''a'', ''b''], disabled = Null, verbose = Val True\<rparr>\<rparr> \<and>
        (case LoggerConfigGuard_dispose (run env0 w1 [Configure 0 None, Disable 0 [''a'']]) g of
           Inl err \<Rightarrow> False
         | Inr w3 \<Rightarrow> options (services w3 ! 0) = Some (default_options 0)))"
proof -
  define saved where "saved = options (services world_bound ! 0)"
  define merged where
    "merged = \<lparr>opt_id = next_id world_bound, opt_fields = spread2 (map_option opt_fields saved) only_a_b\<rparr>"
  define w1 where
    "w1 = world_bound\<lparr>services := (services world_bound)[0 := (services world_bound ! 0)\<lparr>options := Some merged\<rparr>],
                 guards := guards world_bound @ [\<lparr>guard_options = only_a_b, guard_logger = JService 0,
                                        originalOptions = saved\<rparr>],
                 next_id := Suc (next_id world_bound)\<rparr>"
  have h1: "tryResolveService (registry world_bound) (Tok LOGGER) = JService 0"
    by (simp add: world_bound_eq tryResolveService_def)
  have h2: "0 < length (services world_bound)" by (simp add: world_bound_eq)
  note t = guard_merges_and_restores [OF h1 h2 saved_def merged_def w1_def, of env0]
  have sv: "saved = Some (default_options 0)"
    by (simp add: saved_def world_bound_eq LoggerService_new_def default_options_def)
  have mg: "merged = \<lparr>opt_id = 2, opt_fields = \<lparr>enabled = Val [''a'', ''b''], disabled = Null, verbose = Val True\<rparr>\<rparr>"
    by (simp add: merged_def sv world_bound_eq default_options_def only_a_b_def spread2_def assign_props_def
        assign_prop_def no_props_def)
  from t have new: "disableLoggerBut world_bound [''a'', ''b''] = Inr (0, w1)"
    by (simp add: disableLoggerBut_def only_a_b_def world_bound_eq)
  from t have o1: "options (services w1 ! 0) = Some merged" by simp
  from t have d: "LoggerConfigGuard_dispose (run env0 w1 [Configure 0 None, Disable 0 [''a'']]) 0 =
        Inr ((run env0 w1 [Configure 0 None, Disable 0 [''a'']])
               \<lparr>services := (services (run env0 w1 [Configure 0 None, Disable 0 [''a'']]))
                  [0 := (services (run env0 w1 [Configure 0 None, Disable 0 [''a'']]) ! 0)\<lparr>options := saved\<rparr>]\<rparr>)"
    and l: "0 < length (services (run env0 w1 [Configure 0 None, Disable 0 [''a'']]))"
    by (simp_all add: world_bound_eq)
  from new o1 d l show ?thesis by (simp add: mg sv)
qed

section \<open>The auxiliary disable set\<close>

lemma disable_same_log:
  "LoggerService_log p (LoggerService_disable this ms) level message meta = LoggerService_log p this level message meta"
  by (simp add: LoggerService_log_def LoggerService_disable_def filtered_out_def Let_def)

text \<open>
  Claim C6. For every service \<open>s\<close> of a state \<open>w\<close> and every module name \<open>m\<close>:
  \<^verbatim>\<open>s.disable([m])\<close> returns the state \<open>w1\<close> that differs from \<open>w\<close> only in the set
  \<open>disabledModules\<close> of \<open>s\<close>, which \<^verbatim>\<open>isDisabled\<close> reads; every \<^verbatim>\<open>log\<close> call on \<open>s\<close>
  has the outcome it had, and every \<^verbatim>\<open>log\<close> call on any target makes the same emit
  calls in \<open>w1\<close> as in \<open>w\<close>. For every module logger \<open>x\<close> named \<open>m\<close> that is bound to a
  handle holding \<open>s\<close> and active, each of \<^verbatim>\<open>debug\<close>, \<^verbatim>\<open>warn\<close> and \<^verbatim>\<open>error\<close> still
  calls \<^verbatim>\<open>log\<close> on \<open>s\<close>, with the same emit calls as before the \<^verbatim>\<open>disable\<close>, and its
  message reaches the emit function whenever the options of \<open>s\<close> do not filter \<open>m\<close>. For
  every module logger \<open>y\<close> named \<open>m\<close> that is not bound yet, each of the three methods
  binds it and sets it disabled without throwing, whether \<open>s\<close> is found through the
  registered handle or, with no handle registered, under \<^verbatim>\<open>LOGGER\<close>.
\<close>

theorem disable_only_affects_binding:
  assumes "s < length (services w)"
    and "w1 = w\<lparr>services := (services w)[s := (services w ! s)
                   \<lparr>disabledModules := insert m (disabledModules (services w ! s))\<rparr>]\<rparr>"
  shows "call_disable w (JService s) [m] = Inr w1
         \<and> LoggerService_isDisabled (services w1 ! s) m
         \<and> (\<forall>p level message meta.
               LoggerService_log p (services w1 ! s) level message meta =
                 LoggerService_log p (services w ! s) level message meta)
         \<and> (\<forall>t level message meta.
               sink_calls_of (call_log e w1 t level message meta) = sink_calls_of (call_log e w t level message meta))
         \<and> (\<forall>x h args.
               x < length (loggers w) \<and>
               loggers w ! x = \<lparr>ml_name = m, ml_handle = Some h, ml_disabled = False\<rparr> \<and>
               h < length (handles w) \<and> logger (handles w ! h) = JService s \<longrightarrow>
               list_all
                 (\<lambda>(call, level).
                    call e w1 x args =
                      call_log e w1 (JService s) level (util_format e args) (module_meta m)
                    \<and> sink_calls_of (call e w1 x args) = sink_calls_of (call e w x args)
                    \<and> ((m \<noteq> [] \<longrightarrow> \<not> filtered_out (services w ! s) m) \<longrightarrow>
                         sink_calls_of (call e w1 x args) =
                           Some (sink_calls w @
                             [\<lparr>sc_sink = logMethod (services w ! s), sc_level = level,
                               sc_message = util_format e args,
                               sc_meta = stamped (pid e) (services w ! s) (module_meta m)\<rparr>])))
                 [(ModuleLogger_debug, ''debug''), (ModuleLogger_warn, ''warn''),
                  (ModuleLogger_error, ''error'')])
         \<and> (\<forall>y h args.
               y < length (loggers w) \<and>
               loggers w ! y = \<lparr>ml_name = m, ml_handle = None, ml_disabled = False\<rparr> \<and>
               tryResolveService (registry w) (Tok LOGGER_HANDLE) = JHandle h \<and>
               h < length (handles w) \<and> logger (handles w ! h) = JService s \<longrightarrow>
               list_all
                 (\<lambda>call.
                    call e w1 y args =
                      Inr (w1\<lparr>loggers := (loggers w1)
                             [y := \<lparr>ml_name = m, ml_handle = Some h, ml_disabled = True\<rparr>]\<rparr>))
                 [ModuleLogger_debug, ModuleLogger_warn, ModuleLogger_error])
         \<and> (\<forall>y args.
               y < length (loggers w) \<and>
               loggers w ! y = \<lparr>ml_name = m, ml_handle = None, ml_disabled = False\<rparr> \<and>
               \<not> truthy (tryResolveService (registry w) (Tok LOGGER_HANDLE)) \<and>
               tryResolveService (registry w) (Tok LOGGER) = JService s \<longrightarrow>
               list_all
                 (\<lambda>call.
                    call e w1 y args =
                      Inr (w1\<lparr>handles := handles w1 @ [\<lparr>logger = JService s\<rparr>],
                              loggers := (loggers w1)
                                [y := \<lparr>ml_name = m, ml_handle = Some (length (handles w)),
                                       ml_disabled = True\<rparr>]\<rparr>))
                 [ModuleLogger_debug, ModuleLogger_warn, ModuleLogger_error])"
proof -
  have dis: "call_disable w (JService s) [m] = Inr w1"
    using assms(1,2) by (simp add: call_disable_def LoggerService_disable_def)
  have isd: "LoggerService_isDisabled (services w1 ! s) m"
    using assms(1,2) by (simp add: LoggerService_isDisabled_def)
  have svc1: "services w1 ! a = (if a = s then LoggerService_disable (services w ! s) [m] else services w ! a)"
    if "a < length (services w)" for a
    using that assms(2) by (simp add: LoggerService_disable_def nth_list_update)
  have pure: "LoggerService_log p (services w1 ! s) level message meta =
                LoggerService_log p (services w ! s) level message meta" for p level message meta
    using svc1 [OF assms(1)] by (simp add: disable_same_log)
  have same: "sink_calls_of (call_log e w1 t level message meta) = sink_calls_of (call_log e w t level message meta)"
    for t level message meta
  proof (cases t)
    case (JService a)
    show ?thesis
    proof (cases "a < length (services w)")
      case True
      have "LoggerService_log (pid e) (services w1 ! a) level message meta
              = LoggerService_log (pid e) (services w ! a) level message meta"
        using svc1 [OF True] by (simp add: disable_same_log)
      with True JService assms(2) show ?thesis
        by (simp add: call_log_def sink_calls_of_def Let_def split: option.splits)
    next
      case False
      with JService assms(2) show ?thesis by (simp add: call_log_def sink_calls_of_def)
    qed
  qed (simp_all add: call_log_def sink_calls_of_def)
  have bound: "ModuleLogger_log e w1 x level args =
                 call_log e w1 (JService s) level (util_format e args) (module_meta m)
               \<and> sink_calls_of (ModuleLogger_log e w1 x level args) =
                   sink_calls_of (ModuleLogger_log e w x level args)
               \<and> ((m \<noteq> [] \<longrightarrow> \<not> filtered_out (services w ! s) m) \<longrightarrow>
                    sink_calls_of (ModuleLogger_log e w1 x level args) =
                      Some (sink_calls w @
                        [\<lparr>sc_sink = logMethod (services w ! s), sc_level = level,
                          sc_message = util_format e args,
                          sc_meta = stamped (pid e) (services w ! s) (module_meta m)\<rparr>]))"
    if hx: "x < length (loggers w) \<and>
            loggers w ! x = \<lparr>ml_name = m, ml_handle = Some h, ml_disabled = False\<rparr> \<and>
            h < length (handles w) \<and> logger (handles w ! h) = JService s"
    for x h level args
  proof -
    have bx: "ModuleLogger_log e w1 x level args =
                call_log e w1 (JService s) level (util_format e args) (module_meta m)"
      and bx0: "ModuleLogger_log e w x level args =
                call_log e w (JService s) level (util_format e args) (module_meta m)"
      using assms(2) hx by (simp_all add: bound_dispatch [where h = h])
    have eq: "sink_calls_of (ModuleLogger_log e w1 x level args) =
                sink_calls_of (ModuleLogger_log e w x level args)"
      by (simp add: bx bx0 same)
    have fw: "sink_calls_of (ModuleLogger_log e w1 x level args) =
                 Some (sink_calls w @
                   [\<lparr>sc_sink = logMethod (services w ! s), sc_level = level,
                     sc_message = util_format e args,
                     sc_meta = stamped (pid e) (services w ! s) (module_meta m)\<rparr>])"
      if nf: "m \<noteq> [] \<longrightarrow> \<not> filtered_out (services w ! s) m"
    proof -
      have "LoggerService_log (pid e) (services w ! s) level (util_format e args) (module_meta m) =
              Some \<lparr>sc_sink = logMethod (services w ! s), sc_level = level,
                     sc_message = util_format e args,
                     sc_meta = stamped (pid e) (services w ! s) (module_meta m)\<rparr>"
        using nf by (intro unfiltered_log) (simp_all add: module_meta_def)
      then have "sink_calls_of (ModuleLogger_log e w x level args) =
                   Some (sink_calls w @
                     [\<lparr>sc_sink = logMethod (services w ! s), sc_level = level,
                       sc_message = util_format e args,
                       sc_meta = stamped (pid e) (services w ! s) (module_meta m)\<rparr>])"
        using assms(1) by (simp add: bx0 call_log_def sink_calls_of_def Let_def)
      with eq show ?thesis by simp
    qed
    from bx eq fw show ?thesis by blast
  qed
  have bind: "ModuleLogger_log e w1 y level args =
          Inr (w1\<lparr>loggers := (loggers w1)[y := \<lparr>ml_name = m, ml_handle = Some h, ml_disabled = True\<rparr>]\<rparr>)"
    if "y < length (loggers w) \<and>
        loggers w ! y = \<lparr>ml_name = m, ml_handle = None, ml_disabled = False\<rparr> \<and>
        tryResolveService (registry w) (Tok LOGGER_HANDLE) = JHandle h \<and>
        h < length (handles w) \<and> logger (handles w ! h) = JService s"
    for y h level args
    using that assms(1,2)
    by (simp add: ModuleLogger_log_def ensureInit_def attachToLoggerService_def Let_def
        LoggerService_isDisabled_def)
  have bind_legacy: "ModuleLogger_log e w1 y level args =
          Inr (w1\<lparr>handles := handles w1 @ [\<lparr>logger = JService s\<rparr>],
                  loggers := (loggers w1)
                    [y := \<lparr>ml_name = m, ml_handle = Some (length (handles w)), ml_disabled = True\<rparr>]\<rparr>)"
    if "y < length (loggers w) \<and>
        loggers w ! y = \<lparr>ml_name = m, ml_handle = None, ml_disabled = False\<rparr> \<and>
        \<not> truthy (tryResolveService (registry w) (Tok LOGGER_HANDLE)) \<and>
        tryResolveService (registry w) (Tok LOGGER) = JService s"
    for y level args
    using that assms(1,2)
    by (simp add: ModuleLogger_log_def ensureInit_def attachToLoggerService_def Let_def
        LoggerService_isDisabled_def)
  show ?thesis
    unfolding list_all_Cons_iff list_all_Nil_iff prod.case ModuleLogger_debug_def
      ModuleLogger_warn_def ModuleLogger_error_def
    using dis isd pure same bound bind bind_legacy by blast
qed

lemma world_disabled_eq:
  "world_disabled =
     world_bound\<lparr>services := (services world_bound)[0 := (services world_bound ! 0)
        \<lparr>disabledModules := insert ''svc'' (disabledModules (services world_bound ! 0))\<rparr>]\<rparr>"
  by (simp add: world_disabled_def world_bound_eq LoggerService_new_def)

theorem disable_only_affects_binding_witness:
  "call_disable world_bound (JService 0) [''svc''] = Inr world_disabled
   \<and> list_all
       (\<lambda>(call, level).
          sink_calls_of (call env0 world_disabled 0 [JStr ''two''])
            = Some (sink_calls world_bound @
                [\<lparr>sc_sink = 7, sc_level = level, sc_message = ''two'',
                  sc_meta = \<lparr>meta_appName = Some ''app'', meta_pid = Some 4242,
                             meta_moduleName = Some ''svc'', meta_contextName = None,
                             meta_contextId = None\<rparr>\<rparr>]))
       [(ModuleLogger_debug, ''debug''), (ModuleLogger_warn, ''warn''), (ModuleLogger_error, ''error'')]
   \<and> list_all
       (\<lambda>call.
          call env0 world_disabled 1 [JStr ''three'']
            = Inr (world_disabled\<lparr>loggers := (loggers world_disabled)
                     [1 := \<lparr>ml_name = ''svc'', ml_handle = Some 0, ml_disabled = True\<rparr>]\<rparr>))
       [ModuleLogger_debug, ModuleLogger_warn, ModuleLogger_error]"
proof -
  have h1: "0 < length (services world_bound)" by (simp add: world_bound_eq)
  note t = disable_only_affects_binding [OF h1 world_disabled_eq, of env0]
  have hx: "0 < length (loggers world_bound) \<and>
            loggers world_bound ! 0 = \<lparr>ml_name = ''svc'', ml_handle = Some 0, ml_disabled = False\<rparr> \<and>
            0 < length (handles world_bound) \<and> logger (handles world_bound ! 0) = JService 0"
    by (simp add: world_bound_eq)
  have hy: "1 < length (loggers world_bound) \<and>
            loggers world_bound ! 1 = \<lparr>ml_name = ''svc'', ml_handle = None, ml_disabled = False\<rparr> \<and>
            tryResolveService (registry world_bound) (Tok LOGGER_HANDLE) = JHandle 0 \<and>
            0 < length (handles world_bound) \<and> logger (handles world_bound ! 0) = JService 0"
    by (simp add: world_bound_eq tryResolveService_def)
  have nf: "''svc'' \<noteq> [] \<longrightarrow> \<not> filtered_out (services world_bound ! 0) ''svc''"
    by (simp add: world_bound_eq LoggerService_new_def filtered_out_def options_field_def)
  have st: "stamped (pid env0) (services world_bound ! 0) (module_meta ''svc'')
              = \<lparr>meta_appName = Some ''app'', meta_pid = Some 4242, meta_moduleName = Some ''svc'',
                        meta_contextName = None, meta_contextId = None\<rparr>"
    by (simp add: world_bound_eq LoggerService_new_def stamped_def module_meta_def env0_def str_field_def)
  have lm: "logMethod (services world_bound ! 0) = 7" by (simp add: world_bound_eq LoggerService_new_def)
  have fm: "util_format env0 [JStr ''two''] = ''two''" by (simp add: env0_def plain_format_def)
  note a = t [THEN conjunct1]
  note bx = t [THEN conjunct2, THEN conjunct2, THEN conjunct2, THEN conjunct2, THEN conjunct1,
      rule_format, OF hx, of "[JStr ''two'']", unfolded list_all_Cons_iff list_all_Nil_iff prod.case]
  note by1 = t [THEN conjunct2, THEN conjunct2, THEN conjunct2, THEN conjunct2, THEN conjunct2,
      THEN conjunct1, rule_format, OF hy, of "[JStr ''three'']"]
  have b: "list_all
       (\<lambda>(call, level).
          sink_calls_of (call env0 world_disabled 0 [JStr ''two''])
            = Some (sink_calls world_bound @
                [\<lparr>sc_sink = logMethod (services world_bound ! 0), sc_level = level,
                  sc_message = util_format env0 [JStr ''two''],
                  sc_meta = stamped (pid env0) (services world_bound ! 0) (module_meta ''svc'')\<rparr>]))
       [(ModuleLogger_debug, ''debug''), (ModuleLogger_warn, ''warn''), (ModuleLogger_error, ''error'')]"
    unfolding list_all_Cons_iff list_all_Nil_iff prod.case using bx nf by blast
  from a b [unfolded st lm fm] by1 show ?thesis by blast
qed

end
